theory Spec2Isabelle
  imports Main "HOL-Library.Sublist"
begin

section \<open>Strings and characters\<close>

text \<open>
  A transcript is a JavaScript string. It is modelled as a \<^typ>\<open>string\<close>, every character
  standing for the UTF-16 code unit with the same code (U+0000 to U+00FF). On this range
  \<open>\s\<close> and \<open>trim\<close> see TAB, LF, VT, FF, CR, SPACE and NBSP, \<open>\d\<close> sees the ten ASCII
  digits, \<open>\w\<close> sees ASCII letters, digits and the underscore, and \<open>toLowerCase\<close> maps
  \<open>A\<close>..\<open>Z\<close> and the capital letters U+00C0..U+00DE (without the multiplication sign
  U+00D7) to the code unit 32 above. Code units above U+00FF are outside the model.
\<close>

definition isDigit :: "char \<Rightarrow> bool" where
  "isDigit c = (c \<in> set ''0123456789'')"

definition isSpace :: "char \<Rightarrow> bool" where
  "isSpace c = (c \<in> set [CHR 0x09, CHR 0x0A, CHR 0x0B, CHR 0x0C, CHR 0x0D, CHR 0x20, CHR 0xA0])"

definition lowerAZ :: string where
  "lowerAZ = ''abcdefghijklmnopqrstuvwxyz''"

definition upperAZ :: string where
  "upperAZ = ''ABCDEFGHIJKLMNOPQRSTUVWXYZ''"

text \<open>The capital letters U+00C0..U+00DE without U+00D7, and their small letters.\<close>

definition upperLatin1 :: string where
  "upperLatin1 = [
     CHR 0xC0, CHR 0xC1, CHR 0xC2, CHR 0xC3, CHR 0xC4, CHR 0xC5, CHR 0xC6, CHR 0xC7,
     CHR 0xC8, CHR 0xC9, CHR 0xCA, CHR 0xCB, CHR 0xCC, CHR 0xCD, CHR 0xCE, CHR 0xCF,
     CHR 0xD0, CHR 0xD1, CHR 0xD2, CHR 0xD3, CHR 0xD4, CHR 0xD5, CHR 0xD6, CHR 0xD8,
     CHR 0xD9, CHR 0xDA, CHR 0xDB, CHR 0xDC, CHR 0xDD, CHR 0xDE]"

definition lowerLatin1 :: string where
  "lowerLatin1 = [
     CHR 0xE0, CHR 0xE1, CHR 0xE2, CHR 0xE3, CHR 0xE4, CHR 0xE5, CHR 0xE6, CHR 0xE7,
     CHR 0xE8, CHR 0xE9, CHR 0xEA, CHR 0xEB, CHR 0xEC, CHR 0xED, CHR 0xEE, CHR 0xEF,
     CHR 0xF0, CHR 0xF1, CHR 0xF2, CHR 0xF3, CHR 0xF4, CHR 0xF5, CHR 0xF6, CHR 0xF8,
     CHR 0xF9, CHR 0xFA, CHR 0xFB, CHR 0xFC, CHR 0xFD, CHR 0xFE]"

definition isLetter :: "char \<Rightarrow> bool" where
  "isLetter c = (c \<in> set lowerAZ \<or> c \<in> set upperAZ)"

text \<open>The class \<open>\w\<close>, which decides where \<open>\b\<close> holds.\<close>

definition isWordChar :: "char \<Rightarrow> bool" where
  "isWordChar c = (isLetter c \<or> isDigit c \<or> c = CHR ''_'')"

definition toLowerChar :: "char \<Rightarrow> char" where
  "toLowerChar c =
     (case map_of (zip (upperAZ @ upperLatin1) (lowerAZ @ lowerLatin1)) c of
        Some l \<Rightarrow> l | None \<Rightarrow> c)"

definition toLowerCase :: "string \<Rightarrow> string" where
  "toLowerCase s = map toLowerChar s"

text \<open>
  \<open>toUpperCase\<close> of one code unit, as a string: the sharp s (U+00DF) becomes \<open>SS\<close>. The
  capitals of U+00B5 and U+00FF lie above U+00FF; the model leaves these two letters as they
  are, which the only caller cannot tell apart: it deletes every character that is not an
  ASCII letter, white space, apostrophe or hyphen right afterwards.
\<close>

definition toUpperChar :: "char \<Rightarrow> string" where
  "toUpperChar c =
     (if c = CHR 0xDF then ''SS''
      else case map_of (zip (lowerAZ @ lowerLatin1) (upperAZ @ upperLatin1)) c of
             Some u \<Rightarrow> [u] | None \<Rightarrow> [c])"

text \<open>
  Canonicalisation of a character under the \<open>i\<close> flag (without \<open>u\<close>): a character is
  compared through its capital, and a code unit from U+0080 on never becomes equal to an
  ASCII character.
\<close>

definition canonChar :: "char \<Rightarrow> char" where
  "canonChar c = (case map_of (zip lowerAZ upperAZ) c of Some u \<Rightarrow> u | None \<Rightarrow> c)"

definition trim :: "string \<Rightarrow> string" where
  "trim s = rev (dropWhile isSpace (rev (dropWhile isSpace s)))"

text \<open>\<open>s.includes(k)\<close>: \<open>k\<close> occurs in \<open>s\<close> at some index.\<close>

fun str_includes :: "string \<Rightarrow> string \<Rightarrow> bool" where
  "str_includes [] k = (k = [])"
| "str_includes (c # cs) k = (prefix k (c # cs) \<or> str_includes cs k)"

text \<open>\<open>s.slice(-n)\<close> for a positive \<open>n\<close>: the last \<open>n\<close> characters, all of \<open>s\<close> when it is shorter.\<close>

definition sliceLast :: "nat \<Rightarrow> string \<Rightarrow> string" where
  "sliceLast n s = drop (length s - n) s"

section \<open>Regular expressions\<close>

text \<open>
  The patterns of the parsers use literals, the classes \<open>\s\<close> and \<open>\d\<close>, the assertion
  \<open>\b\<close>, sequence, alternation, the greedy \<open>?\<close>, and the greedy \<open>+\<close> and \<open>*\<close> on a class.
  A position is the character before it (if any) and the rest of the input. The matcher
  returns every way to match from a position, in the order a backtracking matcher tries them
  (left alternative first, longest repetition first); the first one is the match of
  JavaScript.
\<close>

datatype cclass = ClsSpace | ClsDigit

datatype regex =
    Eps
  | Chr char
  | ChrI char
  | Cls cclass
  | WordB
  | Seq regex regex
  | Alt regex regex
  | Opt regex
  | Plus cclass
  | Star cclass

type_synonym pos = "char option \<times> string"

fun inClass :: "cclass \<Rightarrow> char \<Rightarrow> bool" where
  "inClass ClsSpace c = isSpace c"
| "inClass ClsDigit c = isDigit c"

definition isWordAt :: "char option \<Rightarrow> bool" where
  "isWordAt p = (case p of None \<Rightarrow> False | Some c \<Rightarrow> isWordChar c)"

definition nextChar :: "string \<Rightarrow> char option" where
  "nextChar s = (case s of [] \<Rightarrow> None | c # _ \<Rightarrow> Some c)"

text \<open>The position after the first \<open>n\<close> characters of the rest.\<close>

definition advance :: "pos \<Rightarrow> nat \<Rightarrow> pos" where
  "advance q n = (if n = 0 then q else (Some (last (take n (snd q))), drop n (snd q)))"

fun matches :: "regex \<Rightarrow> pos \<Rightarrow> pos list" where
  "matches Eps q = [q]"
| "matches (Chr c) (p, s) = (case s of [] \<Rightarrow> [] | x # xs \<Rightarrow> if x = c then [(Some x, xs)] else [])"
| "matches (ChrI c) (p, s) =
     (case s of [] \<Rightarrow> [] | x # xs \<Rightarrow> if canonChar x = canonChar c then [(Some x, xs)] else [])"
| "matches (Cls k) (p, s) = (case s of [] \<Rightarrow> [] | x # xs \<Rightarrow> if inClass k x then [(Some x, xs)] else [])"
| "matches WordB (p, s) = (if isWordAt p \<noteq> isWordAt (nextChar s) then [(p, s)] else [])"
| "matches (Seq a b) q = concat (map (matches b) (matches a q))"
| "matches (Alt a b) q = matches a q @ matches b q"
| "matches (Opt a) q = matches a q @ [q]"
| "matches (Plus k) (p, s) =
     map (advance (p, s)) (rev [1 ..< Suc (length (takeWhile (inClass k) s))])"
| "matches (Star k) (p, s) =
     map (advance (p, s)) (rev [0 ..< Suc (length (takeWhile (inClass k) s))])"

text \<open>The length of the match that starts at a position, if there is one.\<close>

definition matchLen :: "regex \<Rightarrow> pos \<Rightarrow> nat option" where
  "matchLen r q = (case matches r q of [] \<Rightarrow> None | (_, rest) # _ \<Rightarrow> Some (length (snd q) - length rest))"

text \<open>
  \<open>s.replace(r, f)\<close> for a pattern with the \<open>g\<close> flag: the matches are found from left to
  right without overlap, each is replaced by \<open>f\<close> of the matched text, and after an empty
  match the search moves one character on.
\<close>

function replaceFrom :: "regex \<Rightarrow> (string \<Rightarrow> string) \<Rightarrow> char option \<Rightarrow> string \<Rightarrow> string" where
  "replaceFrom r f p s =
     (case matchLen r (p, s) of
        None \<Rightarrow> (case s of [] \<Rightarrow> [] | c # cs \<Rightarrow> c # replaceFrom r f (Some c) cs)
      | Some n \<Rightarrow>
          if n = 0 then f [] @ (case s of [] \<Rightarrow> [] | c # cs \<Rightarrow> c # replaceFrom r f (Some c) cs)
          else f (take n s) @ replaceFrom r f (Some (last (take n s))) (drop n s))"
  by pat_completeness auto
termination
proof (relation "measure (\<lambda>(r, f, p, s). length s)")
  show "wf (measure (\<lambda>(r, f, p, s). length s))" by simp
next
  fix r :: regex and f :: "string \<Rightarrow> string" and p :: "char option" and s cs :: string and c :: char
  assume "s = c # cs"
  then show "((r, f, Some c, cs), (r, f, p, s)) \<in> measure (\<lambda>(r, f, p, s). length s)" by simp
next
  fix r :: regex and f :: "string \<Rightarrow> string" and p :: "char option" and s cs :: string
    and c :: char and n :: nat
  assume "s = c # cs"
  then show "((r, f, Some c, cs), (r, f, p, s)) \<in> measure (\<lambda>(r, f, p, s). length s)" by simp
next
  fix r :: regex and f :: "string \<Rightarrow> string" and p :: "char option" and s :: string and n :: nat
  assume m: "matchLen r (p, s) = Some n" and n: "n \<noteq> 0"
  from m have "n \<le> length s"
    by (auto simp: matchLen_def split: list.splits)
  with n show "((r, f, Some (last (take n s)), drop n s), (r, f, p, s)) \<in> measure (\<lambda>(r, f, p, s). length s)"
    by simp
qed

declare replaceFrom.simps [simp del]

definition replaceAll :: "regex \<Rightarrow> (string \<Rightarrow> string) \<Rightarrow> string \<Rightarrow> string" where
  "replaceAll r f s = replaceFrom r f None s"

text \<open>Building patterns: a literal word, a sequence, a choice.\<close>

definition lit :: "string \<Rightarrow> regex" where
  "lit w = foldr (\<lambda>c r. Seq (ChrI c) r) w Eps"

definition seqs :: "regex list \<Rightarrow> regex" where
  "seqs rs = foldr Seq rs Eps"

fun alts :: "regex list \<Rightarrow> regex" where
  "alts [] = Eps"
| "alts [r] = r"
| "alts (r # rs) = Alt r (alts rs)"

section \<open>The speech parser (speech-parser.ts)\<close>

text \<open>The table \<open>digitPatterns\<close>: each entry is the pattern \<open>/\bword\b/gi\<close> and its digit.\<close>

definition wordPattern :: "string \<Rightarrow> regex" where
  "wordPattern w = seqs [WordB, lit w, WordB]"

definition digitPatterns :: "(string \<times> string) list" where
  "digitPatterns =
    [(''zero'', ''0''), (''oh'', ''0''), (''one'', ''1''), (''won'', ''1''), (''two'', ''2''),
     (''to'', ''2''), (''too'', ''2''), (''three'', ''3''), (''tree'', ''3''), (''four'', ''4''),
     (''for'', ''4''), (''fore'', ''4''), (''five'', ''5''), (''six'', ''6''), (''seven'', ''7''),
     (''eight'', ''8''), (''ate'', ''8''), (''nine'', ''9''), (''niner'', ''9'')]"

text \<open>The loop \<open>for (const [pattern, digit] of table) text = text.replace(pattern, digit)\<close>.\<close>

definition replaceWords :: "(string \<times> string) list \<Rightarrow> string \<Rightarrow> string" where
  "replaceWords table text = foldl (\<lambda>t (w, d). replaceAll (wordPattern w) (\<lambda>_. d) t) text table"

text \<open>\<open>text.replace(/\D/g, '')\<close>\<close>

definition digitsOf :: "string \<Rightarrow> string" where
  "digitsOf text = filter isDigit text"

record ParseResult =
  success :: bool
  code :: "string option"
  rawInput :: string
  normalized :: "string option"

text \<open>\<open>/\b(the\s+)?(code\s+is|my\s+code\s+is|it's|its|is)\b/gi\<close>\<close>

definition codeFillerPhrase :: regex where
  "codeFillerPhrase = seqs
     [WordB,
      Opt (seqs [lit ''the'', Plus ClsSpace]),
      alts [seqs [lit ''code'', Plus ClsSpace, lit ''is''],
            seqs [lit ''my'', Plus ClsSpace, lit ''code'', Plus ClsSpace, lit ''is''],
            lit ''it's'', lit ''its'', lit ''is''],
      WordB]"

text \<open>\<open>/\b(um|uh|like|so|yeah|okay|ok)\b/gi\<close>\<close>

definition fillerWord :: regex where
  "fillerWord = seqs
     [WordB,
      alts [lit ''um'', lit ''uh'', lit ''like'', lit ''so'', lit ''yeah'', lit ''okay'', lit ''ok''],
      WordB]"

text \<open>The table \<open>compounds\<close> of \<open>parseCompoundNumbers\<close>, in the order of its entries.\<close>

definition compounds :: "(string \<times> string) list" where
  "compounds =
    [(''ten'', ''10''), (''eleven'', ''11''), (''twelve'', ''12''), (''thirteen'', ''13''),
     (''fourteen'', ''14''), (''fifteen'', ''15''), (''sixteen'', ''16''), (''seventeen'', ''17''),
     (''eighteen'', ''18''), (''nineteen'', ''19''), (''twenty'', ''20''), (''thirty'', ''30''),
     (''forty'', ''40''), (''fifty'', ''50''), (''sixty'', ''60''), (''seventy'', ''70''),
     (''eighty'', ''80''), (''ninety'', ''90'')]"

text \<open>
  \<open>/(\d)0\s*(\d)/g\<close> with the replacement \<open>(_, tens, ones) => tens + ones\<close>: the first group
  is the first character of the match and the second group is its last character.
\<close>

definition tensOnes :: regex where
  "tensOnes = seqs [Cls ClsDigit, Chr CHR ''0'', Star ClsSpace, Cls ClsDigit]"

definition joinTensOnes :: "string \<Rightarrow> string" where
  "joinTensOnes m = [hd m, last m]"

definition parseCompoundNumbers :: "string \<Rightarrow> string option" where
  "parseCompoundNumbers text =
    (let result = replaceWords compounds text;
         result = replaceAll tensOnes joinTensOnes result;
         digits = digitsOf result
     in if length digits \<ge> 4 then Some digits else None)"

text \<open>The test \<open>compoundResult && compoundResult.length === 4\<close> of \<open>parseSpokenCode\<close>.\<close>

definition compoundFour :: "string \<Rightarrow> bool" where
  "compoundFour text = (case parseCompoundNumbers text of None \<Rightarrow> False | Some c \<Rightarrow> length c = 4)"

text \<open>The text after lower-casing and the removal of filler phrases.\<close>

definition normalizeCode :: "string \<Rightarrow> string" where
  "normalizeCode text =
     trim (replaceAll fillerWord (\<lambda>_. [])
            (replaceAll codeFillerPhrase (\<lambda>_. []) (toLowerCase text)))"

definition parseSpokenCode :: "string \<Rightarrow> ParseResult" where
  "parseSpokenCode speech =
    (if speech = [] then \<lparr>success = False, code = None, rawInput = [], normalized = None\<rparr>
     else
       let rawInput = trim speech;
           normalized = normalizeCode rawInput;
           directDigits = digitsOf normalized
       in if length directDigits = 4
          then \<lparr>success = True, code = Some directDigits, rawInput = rawInput,
                normalized = Some directDigits\<rparr>
          else
            let converted = replaceWords digitPatterns normalized;
                digits = digitsOf converted
            in if length digits = 4
               then \<lparr>success = True, code = Some digits, rawInput = rawInput,
                     normalized = Some digits\<rparr>
               else
                 let compoundResult = parseCompoundNumbers normalized
                 in if compoundResult \<noteq> None \<and> length (the compoundResult) = 4
                    then \<lparr>success = True, code = compoundResult, rawInput = rawInput,
                          normalized = compoundResult\<rparr>
                    else if length digits > 4
                    then \<lparr>success = True, code = Some (take 4 digits), rawInput = rawInput,
                          normalized = Some (take 4 digits)\<rparr>
                    else \<lparr>success = False, code = None, rawInput = rawInput,
                          normalized = (if digits = [] then None else Some digits)\<rparr>)"

text \<open>\<open>/\b(my name is|i'm|i am|it's|this is|call me)\b/gi\<close>\<close>

definition introPhrase :: regex where
  "introPhrase = seqs
     [WordB,
      alts [lit ''my name is'', lit ''i'm'', lit ''i am'', lit ''it's'', lit ''this is'',
            lit ''call me''],
      WordB]"

text \<open>\<open>/\b(um|uh|like|so|yeah)\b/gi\<close>\<close>

definition nameFillerWord :: regex where
  "nameFillerWord = seqs
     [WordB, alts [lit ''um'', lit ''uh'', lit ''like'', lit ''so'', lit ''yeah''], WordB]"

text \<open>
  \<open>name.split(/\s+/)\<close>: the pieces between the maximal runs of white space. The flag says
  that the character before was white space; a run at the start or at the end of the text
  leaves an empty piece there, and the empty text gives one empty piece.
\<close>

fun splitFrom :: "bool \<Rightarrow> string \<Rightarrow> string \<Rightarrow> string list" where
  "splitFrom inRun piece [] = [rev piece]"
| "splitFrom inRun piece (c # cs) =
     (if isSpace c
      then (if inRun then splitFrom True piece cs else rev piece # splitFrom True [] cs)
      else splitFrom False (c # piece) cs)"

definition splitSpaces :: "string \<Rightarrow> string list" where
  "splitSpaces s = splitFrom False [] s"

text \<open>\<open>word.charAt(0).toUpperCase() + word.slice(1).toLowerCase()\<close>\<close>

definition capitalize :: "string \<Rightarrow> string" where
  "capitalize word = (case word of [] \<Rightarrow> [] | c # cs \<Rightarrow> toUpperChar c @ toLowerCase cs)"

text \<open>\<open>words.join(' ')\<close>\<close>

fun joinSpace :: "string list \<Rightarrow> string" where
  "joinSpace [] = []"
| "joinSpace [w] = w"
| "joinSpace (w # ws) = w @ '' '' @ joinSpace ws"

text \<open>\<open>name.replace(/[^a-zA-Z\s'-]/g, '')\<close>\<close>

definition keepNameChars :: "string \<Rightarrow> string" where
  "keepNameChars s = filter (\<lambda>c. isLetter c \<or> isSpace c \<or> c = CHR 0x27 \<or> c = CHR ''-'') s"

definition titleCase :: "string \<Rightarrow> string" where
  "titleCase name = take 100 (keepNameChars (joinSpace (map capitalize (splitSpaces name))))"

definition sanitizeName :: "string \<Rightarrow> string" where
  "sanitizeName speech =
    (if speech = [] then []
     else
       let name = trim (replaceAll nameFillerWord (\<lambda>_. [])
                         (replaceAll introPhrase (\<lambda>_. []) (trim speech)));
           name = titleCase name
       in if name = [] then ''Caller'' else name)"

text \<open>Scanning a keyword table: the first key one of whose keywords the input includes.\<close>

fun anyKeyword :: "string \<Rightarrow> string list \<Rightarrow> bool" where
  "anyKeyword input [] = False"
| "anyKeyword input (keyword # keywords) =
     (if str_includes input keyword then True else anyKeyword input keywords)"

fun firstKey :: "string \<Rightarrow> (string \<times> string list) list \<Rightarrow> string option" where
  "firstKey input [] = None"
| "firstKey input ((key, keywords) # entries) =
     (if anyKeyword input keywords then Some key else firstKey input entries)"

definition verticals :: "(string \<times> string list) list" where
  "verticals =
    [(''real_estate'', [''real estate'', ''realestate'', ''real-estate'', ''property'',
                        ''properties'', ''realtor'']),
     (''insurance'', [''insurance'', ''insure'', ''policy'', ''policies'']),
     (''mortgage'', [''mortgage'', ''loan'', ''loans'', ''lending'', ''home loan'']),
     (''other'', [''other'', ''something else'', ''different'', ''none''])]"

definition parseVerticalSelection :: "string \<Rightarrow> string option" where
  "parseVerticalSelection speech = firstKey (trim (toLowerCase speech)) verticals"

definition pains :: "(string \<times> string list) list" where
  "pains =
    [(''spam_flags'', [''spam'', ''flag'', ''flagged'', ''blocked'', ''scam likely'',
                       ''spam likely'']),
     (''awkward_delay'', [''awkward'', ''delay'', ''pause'', ''waiting'', ''silence'',
                          ''dead air'']),
     (''low_answer_rates'', [''answer'', ''rate'', ''rates'', ''low answer'',
                             ''nobody answers'', ''pickup'']),
     (''speed'', [''speed'', ''slow'', ''fast'', ''quick'', ''efficiency'', ''time''])]"

definition parsePainSelection :: "string \<Rightarrow> string option" where
  "parsePainSelection speech = firstKey (trim (toLowerCase speech)) pains"

record PhoneParseResult =
  phoneSuccess :: bool
  number :: "string option"
  phoneRawInput :: string

text \<open>\<open>/\b(my number is|my phone number is|it's|the number is|call me at)\b/gi\<close>\<close>

definition phoneFillerPhrase :: regex where
  "phoneFillerPhrase = seqs
     [WordB,
      alts [lit ''my number is'', lit ''my phone number is'', lit ''it's'',
            lit ''the number is'', lit ''call me at''],
      WordB]"

text \<open>The digits left after filler stripping and digit-word translation.\<close>

definition phoneDigits :: "string \<Rightarrow> string" where
  "phoneDigits speech =
    (let text = trim (replaceAll fillerWord (\<lambda>_. [])
                       (replaceAll phoneFillerPhrase (\<lambda>_. []) (toLowerCase (trim speech))));
         converted = replaceWords digitPatterns text
     in digitsOf converted)"

definition parsePhoneNumber :: "string \<Rightarrow> PhoneParseResult" where
  "parsePhoneNumber speech =
    (if speech = [] then \<lparr>phoneSuccess = False, number = None, phoneRawInput = []\<rparr>
     else
       let digits = phoneDigits speech in
       if length digits = 10
       then \<lparr>phoneSuccess = True, number = Some (''+1'' @ digits), phoneRawInput = trim speech\<rparr>
       else if length digits = 11 \<and> hd digits = CHR ''1''
       then \<lparr>phoneSuccess = True, number = Some (''+'' @ digits), phoneRawInput = trim speech\<rparr>
       else if length digits > 10
       then \<lparr>phoneSuccess = True, number = Some (''+1'' @ sliceLast 10 digits),
             phoneRawInput = trim speech\<rparr>
       else \<lparr>phoneSuccess = False, number = None, phoneRawInput = trim speech\<rparr>)"

section \<open>The helpers of the voice-agent routes (retell.ts)\<close>

definition retell_sanitizeName :: "string \<Rightarrow> string" where
  "retell_sanitizeName speech =
    (if speech = [] then ''Caller''
     else
       let name = trim (replaceAll introPhrase (\<lambda>_. []) (trim speech));
           name = titleCase name
       in if name = [] then ''Caller'' else name)"

definition normalizeVertical :: "string \<Rightarrow> string" where
  "normalizeVertical input =
    (let lower = toLowerCase input in
     if str_includes lower ''real estate'' \<or> str_includes lower ''realtor''
        \<or> str_includes lower ''property''
     then ''real_estate''
     else if str_includes lower ''insurance'' \<or> str_includes lower ''policy''
     then ''insurance''
     else if str_includes lower ''mortgage'' \<or> str_includes lower ''loan''
        \<or> str_includes lower ''lending''
     then ''mortgage''
     else ''other'')"

definition normalizePain :: "string \<Rightarrow> string" where
  "normalizePain input =
    (let lower = toLowerCase input in
     if str_includes lower ''spam'' \<or> str_includes lower ''flag'' \<or> str_includes lower ''blocked''
     then ''spam_flags''
     else if str_includes lower ''delay'' \<or> str_includes lower ''awkward''
        \<or> str_includes lower ''pause''
     then ''awkward_delay''
     else if str_includes lower ''answer'' \<or> str_includes lower ''rate''
        \<or> str_includes lower ''pickup''
     then ''low_answer_rates''
     else if str_includes lower ''speed'' \<or> str_includes lower ''slow''
        \<or> str_includes lower ''fast''
     then ''speed''
     else ''other'')"

section \<open>The store (session.ts)\<close>

text \<open>
  The database is a value: the rows of the session table in the order \<open>findFirst\<close> reads
  them, the event rows in insertion order, and the rate-limit rows under their unique key,
  the caller's number. The schema file is not among the sources; the fields are the ones
  the functions read and write, with the creation time of a row as the schema's default.
  Times are milliseconds as integers, and a \<open>clock\<close> gives the successive readings of the
  wall clock during one call (\<open>new Date()\<close>, \<open>Date.now()\<close> and the defaults of a new row),
  numbered in the order the call takes them.
\<close>

type_synonym clock = "nat \<Rightarrow> int"

record Config =
  expiryMinutes :: int
  pairedExpiryMinutes :: int
  maxAttempts :: int
  lockoutSeconds :: int

datatype SessionStatus = CREATED | PAIRED | ACTIVE | EXPIRED

record Session =
  session_id :: string
  browserToken :: string
  pairCode :: string
  status :: SessionStatus
  callerNumber :: "string option"
  callerName :: "string option"
  callSid :: "string option"
  activeUntil :: "int option"
  expiresAt :: int
  createdAt :: int

datatype jsvalue = JString string | JTime int | JBool bool

record Event =
  eventSessionId :: string
  eventType :: string
  eventValue :: "(string \<times> jsvalue) list"
  eventCreatedAt :: int

record RateLimit =
  failedAttempts :: int
  lastAttemptAt :: int
  lockedUntil :: "int option"

record Store =
  sessions :: "Session list"
  events :: "Event list"
  rateLimits :: "string \<rightharpoonup> RateLimit"

datatype error = UnableToGenerateCode | RecordNotFound

text \<open>The filter \<open>status in [CREATED, PAIRED, ACTIVE], expiresAt > now\<close>.\<close>

definition isLive :: "int \<Rightarrow> Session \<Rightarrow> bool" where
  "isLive now s = (status s \<in> {CREATED, PAIRED, ACTIVE} \<and> expiresAt s > now)"

text \<open>\<open>String(n)\<close> for a natural number, and \<open>padStart(4, '0')\<close>.\<close>

definition digitChar :: "nat \<Rightarrow> char" where
  "digitChar d = ''0123456789'' ! d"

function showNat :: "nat \<Rightarrow> string" where
  "showNat n = (if n < 10 then [digitChar n] else showNat (n div 10) @ [digitChar (n mod 10)])"
  by pat_completeness auto
termination
  by (relation "measure (\<lambda>n. n)") auto

declare showNat.simps [simp del]

definition padStart4 :: "string \<Rightarrow> string" where
  "padStart4 s = replicate (4 - length s) CHR ''0'' @ s"

text \<open>
  \<open>generateUniquePairCode\<close>: at most 100 draws. \<open>rnd i\<close> is the value of
  \<open>Math.floor(Math.random() * 10000)\<close> in round \<open>i\<close>, and reading \<open>Suc i\<close> of the clock is
  the one of that round's query.
\<close>

fun pairCodeLoop :: "clock \<Rightarrow> (nat \<Rightarrow> nat) \<Rightarrow> Store \<Rightarrow> nat \<Rightarrow> nat \<Rightarrow> error + string" where
  "pairCodeLoop clk rnd st i 0 = Inl UnableToGenerateCode"
| "pairCodeLoop clk rnd st i (Suc left) =
     (let fresh = padStart4 (showNat (rnd i)) in
      case find (\<lambda>s. pairCode s = fresh \<and> isLive (clk (Suc i)) s) (sessions st) of
        None \<Rightarrow> Inr fresh
      | Some existing \<Rightarrow> pairCodeLoop clk rnd st (Suc i) left)"

definition generateUniquePairCode :: "clock \<Rightarrow> (nat \<Rightarrow> nat) \<Rightarrow> Store \<Rightarrow> error + string" where
  "generateUniquePairCode clk rnd st = pairCodeLoop clk rnd st 0 100"

record SessionSummary =
  summaryId :: string
  summaryPairCode :: string
  summaryExpiresAt :: int

definition summaryOf :: "Session \<Rightarrow> SessionSummary" where
  "summaryOf s = \<lparr>summaryId = session_id s, summaryPairCode = pairCode s,
                  summaryExpiresAt = expiresAt s\<rparr>"

text \<open>
  \<open>createSession\<close>. Reading 0 of the clock is the one of the query for an existing session,
  reading 101 the one of the new expiry, reading 102 the creation time of the row; \<open>newId\<close>
  is the identifier the database gives the new row.
\<close>

definition createSession ::
  "Config \<Rightarrow> clock \<Rightarrow> (nat \<Rightarrow> nat) \<Rightarrow> string \<Rightarrow> string \<Rightarrow> Store \<Rightarrow> error + (SessionSummary \<times> Store)" where
  "createSession cfg clk rnd newId token st =
    (case find (\<lambda>s. browserToken s = token \<and> isLive (clk 0) s) (sessions st) of
       Some existing \<Rightarrow> Inr (summaryOf existing, st)
     | None \<Rightarrow>
        (case generateUniquePairCode clk rnd st of
           Inl e \<Rightarrow> Inl e
         | Inr fresh \<Rightarrow>
            let session = \<lparr>session_id = newId, browserToken = token, pairCode = fresh,
                           status = CREATED, callerNumber = None, callerName = None,
                           callSid = None, activeUntil = None,
                           expiresAt = clk 101 + expiryMinutes cfg * 60 * 1000,
                           createdAt = clk 102\<rparr>
            in Inr (summaryOf session, st\<lparr>sessions := sessions st @ [session]\<rparr>)))"

definition findSessionByCode :: "clock \<Rightarrow> string \<Rightarrow> Store \<Rightarrow> Session option" where
  "findSessionByCode clk c st =
     find (\<lambda>s. pairCode s = c \<and> status s = CREATED \<and> expiresAt s > clk 0) (sessions st)"

definition createEvent :: "int \<Rightarrow> string \<Rightarrow> string \<Rightarrow> (string \<times> jsvalue) list \<Rightarrow> Store \<Rightarrow> Store" where
  "createEvent now sessionId type val st =
     st\<lparr>events := events st @
          [\<lparr>eventSessionId = sessionId, eventType = type, eventValue = val, eventCreatedAt = now\<rparr>]\<rparr>"

definition maskPhoneNumber :: "string \<Rightarrow> string" where
  "maskPhoneNumber phone = (if phone = [] \<or> length phone < 4 then ''****''
                            else ''***-***-'' @ sliceLast 4 phone)"

text \<open>
  \<open>pairSession\<close>: an update of the row with the given identifier, whatever its status,
  which fails when there is no such row; then the \<open>paired\<close> event.
\<close>

definition pairSession ::
  "Config \<Rightarrow> clock \<Rightarrow> string \<Rightarrow> string \<Rightarrow> string \<Rightarrow> string \<Rightarrow> Store \<Rightarrow> error + (Session \<times> Store)" where
  "pairSession cfg clk sessionId callerNo callerNm leg st =
    (let until = clk 0 + pairedExpiryMinutes cfg * 60 * 1000;
         upd = (\<lambda>s. s\<lparr>status := PAIRED, callerNumber := Some callerNo, callerName := Some callerNm,
                        callSid := Some leg, activeUntil := Some until, expiresAt := until\<rparr>)
     in case find (\<lambda>s. session_id s = sessionId) (sessions st) of
          None \<Rightarrow> Inl RecordNotFound
        | Some row \<Rightarrow>
            let st1 = st\<lparr>sessions := map (\<lambda>s. if session_id s = sessionId then upd s else s)
                                        (sessions st)\<rparr>;
                st2 = createEvent (clk 2) sessionId ''paired''
                        [(''callerName'', JString callerNm),
                         (''callerNumber'', JString (maskPhoneNumber callerNo)),
                         (''timestamp'', JTime (clk 1))] st1
            in Inr (upd row, st2))"

section \<open>Rate limiting (session.ts)\<close>

record RateLimitCheck =
  allowed :: bool
  remainingAttempts :: "int option"
  checkLockedUntil :: "int option"

definition checkRateLimit :: "Config \<Rightarrow> clock \<Rightarrow> string \<Rightarrow> Store \<Rightarrow> RateLimitCheck \<times> Store" where
  "checkRateLimit cfg clk caller st =
    (case rateLimits st caller of
       None \<Rightarrow> (\<lparr>allowed = True, remainingAttempts = Some (maxAttempts cfg),
                  checkLockedUntil = None\<rparr>, st)
     | Some row \<Rightarrow>
        if lockedUntil row \<noteq> None \<and> the (lockedUntil row) > clk 0
        then (\<lparr>allowed = False, remainingAttempts = None,
               checkLockedUntil = lockedUntil row\<rparr>, st)
        else if lockedUntil row \<noteq> None \<and> the (lockedUntil row) \<le> clk 1
        then (\<lparr>allowed = True, remainingAttempts = Some (maxAttempts cfg),
               checkLockedUntil = None\<rparr>,
              st\<lparr>rateLimits := (rateLimits st)
                    (caller \<mapsto> row\<lparr>failedAttempts := 0, lockedUntil := None\<rparr>)\<rparr>)
        else
          let remaining = maxAttempts cfg - failedAttempts row
          in (\<lparr>allowed = (remaining > 0), remainingAttempts = Some (max 0 remaining),
               checkLockedUntil = None\<rparr>, st))"

record FailedAttempt =
  locked :: bool
  attemptLockedUntil :: "int option"

definition recordFailedAttempt :: "Config \<Rightarrow> clock \<Rightarrow> string \<Rightarrow> Store \<Rightarrow> FailedAttempt \<times> Store" where
  "recordFailedAttempt cfg clk caller st =
    (let row = (case rateLimits st caller of
                  None \<Rightarrow> \<lparr>failedAttempts = 1, lastAttemptAt = clk 0, lockedUntil = None\<rparr>
                | Some r \<Rightarrow> r\<lparr>failedAttempts := failedAttempts r + 1, lastAttemptAt := clk 0\<rparr>);
         st1 = st\<lparr>rateLimits := (rateLimits st)(caller \<mapsto> row)\<rparr>
     in if failedAttempts row \<ge> maxAttempts cfg
        then
          let until = clk 1 + lockoutSeconds cfg * 1000
          in (\<lparr>locked = True, attemptLockedUntil = Some until\<rparr>,
              st1\<lparr>rateLimits := (rateLimits st1)(caller \<mapsto> row\<lparr>lockedUntil := Some until\<rparr>)\<rparr>)
        else (\<lparr>locked = False, attemptLockedUntil = None\<rparr>, st1))"

definition clearRateLimit :: "string \<Rightarrow> Store \<Rightarrow> Store" where
  "clearRateLimit caller st = st\<lparr>rateLimits := (rateLimits st)(caller := None)\<rparr>"

text \<open>Consecutive failed attempts of one caller, one clock for each call.\<close>

fun failedAttemptsRun :: "Config \<Rightarrow> string \<Rightarrow> clock list \<Rightarrow> Store \<Rightarrow> Store" where
  "failedAttemptsRun cfg caller [] st = st"
| "failedAttemptsRun cfg caller (clk # clks) st =
     failedAttemptsRun cfg caller clks (snd (recordFailedAttempt cfg clk caller st))"

text \<open>The failures a caller has on record, and whether the caller is free of a lockout.\<close>

definition attemptsOf :: "Store \<Rightarrow> string \<Rightarrow> int" where
  "attemptsOf st caller = (case rateLimits st caller of None \<Rightarrow> 0 | Some r \<Rightarrow> failedAttempts r)"

definition unlocked :: "Store \<Rightarrow> string \<Rightarrow> bool" where
  "unlocked st caller = (case rateLimits st caller of None \<Rightarrow> True | Some r \<Rightarrow> lockedUntil r = None)"

section \<open>Pairing attempts of the call routes (twilio.ts, retell.ts)\<close>

text \<open>
  Both code routes pair in two awaited steps: \<open>findSessionByCode(code)\<close>, and, when a
  session came back, \<open>pairSession(session.id, ...)\<close>. Each step is one query of the
  database; between the two steps of one request the steps of another request can run.
\<close>

record Caller =
  fromNumber :: string
  spokenName :: string
  callLeg :: string

datatype attempt = Start | Found Session | Unavailable | Paired Session | Failed error

definition attemptStep ::
  "Config \<Rightarrow> clock \<Rightarrow> string \<Rightarrow> Caller \<Rightarrow> attempt \<Rightarrow> Store \<Rightarrow> attempt \<times> Store" where
  "attemptStep cfg clk c who a st =
    (case a of
       Start \<Rightarrow>
         (case findSessionByCode clk c st of
            None \<Rightarrow> (Unavailable, st)
          | Some s \<Rightarrow> (Found s, st))
     | Found s \<Rightarrow>
         (case pairSession cfg clk (session_id s) (fromNumber who) (spokenName who) (callLeg who) st of
            Inl e \<Rightarrow> (Failed e, st)
          | Inr (row, st') \<Rightarrow> (Paired row, st'))
     | _ \<Rightarrow> (a, st))"

text \<open>
  Two requests with the same code under a schedule: each entry says whose step runs next
  (\<open>True\<close> for the first caller) and gives the clock of that step.
\<close>

fun runAttempts ::
  "Config \<Rightarrow> string \<Rightarrow> Caller \<Rightarrow> Caller \<Rightarrow> (bool \<times> clock) list
     \<Rightarrow> attempt \<times> attempt \<times> Store \<Rightarrow> attempt \<times> attempt \<times> Store" where
  "runAttempts cfg c w1 w2 [] cur = cur"
| "runAttempts cfg c w1 w2 ((first, clk) # sched) (a1, a2, st) =
     (if first
      then (let (a1', st') = attemptStep cfg clk c w1 a1 st
            in runAttempts cfg c w1 w2 sched (a1', a2, st'))
      else (let (a2', st') = attemptStep cfg clk c w2 a2 st
            in runAttempts cfg c w1 w2 sched (a1, a2', st')))"

definition hasPaired :: "attempt \<Rightarrow> bool" where
  "hasPaired a = (case a of Paired s \<Rightarrow> True | _ \<Rightarrow> False)"

section \<open>The schedule answer (retell.ts, twilio.ts)\<close>

type_synonym emission = "string \<times> string \<times> (string \<times> jsvalue) list"

definition affirmations :: "string list" where
  "affirmations = [''yes'', ''yeah'', ''sure'', ''okay'', ''yep'', ''absolutely'', ''definitely'']"

text \<open>\<open>affirmations.some(word => wantsSchedule.includes(word))\<close>\<close>

definition isYes :: "string \<Rightarrow> bool" where
  "isYes wantsSchedule = list_ex (\<lambda>word. str_includes wantsSchedule word) affirmations"

text \<open>
  \<open>handleScheduleAppointment\<close> of the voice-agent route. \<open>stateId\<close> is the session of the
  call's state (if any), \<open>argId\<close> and \<open>wants\<close> are the arguments \<open>session_id\<close> and
  \<open>wants_schedule\<close> as strings, \<open>day\<close> is the text of the next business day. The result is
  the flag \<open>scheduled\<close> of the answer (if any), the broadcasts and the store.
\<close>

text \<open>\<open>state?.sessionId || String(args.session_id || '')\<close>\<close>

definition scheduleSessionId :: "string option \<Rightarrow> string \<Rightarrow> string" where
  "scheduleSessionId stateId argId =
     (case stateId of None \<Rightarrow> argId | Some i \<Rightarrow> if i = [] then argId else i)"

definition handleScheduleAppointment ::
  "clock \<Rightarrow> string \<Rightarrow> string option \<Rightarrow> string \<Rightarrow> string \<Rightarrow> Store
     \<Rightarrow> bool option \<times> emission list \<times> Store" where
  "handleScheduleAppointment clk day stateId argId wants st =
    (let sessionId = scheduleSessionId stateId argId
     in if sessionId = [] then (None, [], st)
        else
          let wantsSchedule = toLowerCase wants in
          if isYes wantsSchedule
          then
            let st1 = createEvent (clk 1) sessionId ''schedule_requested''
                        [(''timestamp'', JTime (clk 0))] st;
                e1 = (sessionId, ''schedule_requested'', [(''timestamp'', JTime (clk 2))]);
                st2 = createEvent (clk 4) sessionId ''appointment_scheduled''
                        [(''date'', JString day), (''time'', JString ''2:00 PM''),
                         (''timestamp'', JTime (clk 3))] st1;
                e2 = (sessionId, ''appointment_scheduled'',
                        [(''date'', JString day), (''time'', JString ''2:00 PM''),
                         (''timestamp'', JTime (clk 5))])
            in (Some True, [e1, e2], st2)
          else
            let st1 = createEvent (clk 1) sessionId ''schedule_declined''
                        [(''timestamp'', JTime (clk 0))] st;
                e1 = (sessionId, ''schedule_declined'', [(''timestamp'', JTime (clk 2))])
            in (Some False, [e1], st1))"

text \<open>
  The route \<open>POST /schedule\<close> of the telephony route: the same two branches, decided by
  five words, and the closing \<open>demo_completed\<close> event after either.
\<close>

definition twilioWantsSchedule :: "string \<Rightarrow> bool" where
  "twilioWantsSchedule speechResult =
    (let response = toLowerCase speechResult in
     str_includes response ''yes'' \<or> str_includes response ''yeah'' \<or>
     str_includes response ''sure'' \<or> str_includes response ''okay'' \<or>
     str_includes response ''yep'')"

definition twilioSchedule ::
  "clock \<Rightarrow> string \<Rightarrow> string \<Rightarrow> string \<Rightarrow> Store \<Rightarrow> emission list \<times> Store" where
  "twilioSchedule clk day sessionId speechResult st =
    (let (es, st') =
       (if twilioWantsSchedule speechResult
        then
          let st1 = createEvent (clk 1) sessionId ''schedule_requested''
                      [(''timestamp'', JTime (clk 0))] st;
              e1 = (sessionId, ''schedule_requested'', [(''timestamp'', JTime (clk 2))]);
              st2 = createEvent (clk 4) sessionId ''appointment_scheduled''
                      [(''date'', JString day), (''time'', JString ''2:00 PM''),
                       (''timestamp'', JTime (clk 3))] st1;
              e2 = (sessionId, ''appointment_scheduled'',
                      [(''date'', JString day), (''time'', JString ''2:00 PM''),
                       (''timestamp'', JTime (clk 5))])
          in ([e1, e2], st2)
        else
          let st1 = createEvent (clk 1) sessionId ''schedule_declined''
                      [(''timestamp'', JTime (clk 0))] st;
              e1 = (sessionId, ''schedule_declined'', [(''timestamp'', JTime (clk 2))])
          in ([e1], st1));
         st'' = createEvent (clk 7) sessionId ''demo_completed''
                  [(''timestamp'', JTime (clk 6))] st';
         e = (sessionId, ''demo_completed'', [(''timestamp'', JTime (clk 8))])
     in (es @ [e], st''))"

section \<open>The specification's wording of the keyword matches\<close>

text \<open>
  The specification resolves a category by a case-insensitive substring match against an
  ordered table: the first entry, in table order, any of whose keywords is a substring of
  the transcript wins, and no match gives no key. These two definitions follow those
  words; the functions of the code are compared with them below.
\<close>

definition ciSubstring :: "string \<Rightarrow> string \<Rightarrow> bool" where
  "ciSubstring keyword transcript = sublist (toLowerCase keyword) (toLowerCase transcript)"

definition specFirstMatch :: "(string \<times> string list) list \<Rightarrow> string \<Rightarrow> string option" where
  "specFirstMatch table transcript =
     map_option fst (find (\<lambda>(key, keywords). \<exists>k \<in> set keywords. ciSubstring k transcript) table)"

text \<open>
  The keywords of the branches of \<open>normalizeVertical\<close> and \<open>normalizePain\<close>, in the order
  of the branches, and the words of the test in the route \<open>POST /schedule\<close>.
\<close>

definition retellVerticals :: "(string \<times> string list) list" where
  "retellVerticals =
    [(''real_estate'', [''real estate'', ''realtor'', ''property'']),
     (''insurance'', [''insurance'', ''policy'']),
     (''mortgage'', [''mortgage'', ''loan'', ''lending''])]"

definition retellPains :: "(string \<times> string list) list" where
  "retellPains =
    [(''spam_flags'', [''spam'', ''flag'', ''blocked'']),
     (''awkward_delay'', [''delay'', ''awkward'', ''pause'']),
     (''low_answer_rates'', [''answer'', ''rate'', ''pickup'']),
     (''speed'', [''speed'', ''slow'', ''fast''])]"

definition twilioAffirmations :: "string list" where
  "twilioAffirmations = [''yes'', ''yeah'', ''sure'', ''okay'', ''yep'']"

text \<open>
  A keyword that is not empty, has no white space at either end and is written in small
  letters: trimming and lower-casing the transcript cannot change whether it occurs.
\<close>

definition plainKeyword :: "string \<Rightarrow> bool" where
  "plainKeyword k = (k \<noteq> [] \<and> \<not> isSpace (hd k) \<and> \<not> isSpace (last k) \<and> toLowerCase k = k)"

definition plainTable :: "(string \<times> string list) list \<Rightarrow> bool" where
  "plainTable table = list_all (\<lambda>(key, keywords). list_all plainKeyword keywords) table"

section \<open>Example data\<close>

text \<open>A configuration with the defaults of \<open>config.ts\<close>, stores and callers for the examples.\<close>

definition demoConfig :: Config where
  "demoConfig = \<lparr>expiryMinutes = 10, pairedExpiryMinutes = 30, maxAttempts = 3,
                  lockoutSeconds = 60\<rparr>"

definition emptyStore :: Store where
  "emptyStore = \<lparr>sessions = [], events = [], rateLimits = Map.empty\<rparr>"

definition demoSession :: Session where
  "demoSession = \<lparr>session_id = ''s1'', browserToken = ''tab-1'', pairCode = ''4827'',
                   status = CREATED, callerNumber = None, callerName = None, callSid = None,
                   activeUntil = None, expiresAt = 600000, createdAt = 0\<rparr>"

definition demoStore :: Store where
  "demoStore = \<lparr>sessions = [demoSession], events = [], rateLimits = Map.empty\<rparr>"

text \<open>A store that also holds an expired session, never swept, with the same pairing code.\<close>

definition staleSession :: Session where
  "staleSession = \<lparr>session_id = ''s0'', browserToken = ''tab-0'', pairCode = ''4827'',
                   status = CREATED, callerNumber = None, callerName = None, callSid = None,
                   activeUntil = None, expiresAt = 500, createdAt = 0\<rparr>"

definition staleStore :: Store where
  "staleStore = \<lparr>sessions = [staleSession, demoSession], events = [], rateLimits = Map.empty\<rparr>"

definition alice :: Caller where
  "alice = \<lparr>fromNumber = ''+15550101'', spokenName = ''Alice'', callLeg = ''CA1''\<rparr>"

definition bob :: Caller where
  "bob = \<lparr>fromNumber = ''+15550102'', spokenName = ''Bob'', callLeg = ''CA2''\<rparr>"

section \<open>Character tests on the bits of a code unit\<close>

text \<open>
  The tables above, read off the eight bits of a character (\<open>b0\<close> is the lowest). The low
  five bits of an ASCII letter are 1 to 26; those of the letters U+00C0..U+00DE and
  U+00E0..U+00FE are anything but 23. These equations are what evaluation uses.
\<close>

definition lowFive :: "bool \<Rightarrow> bool \<Rightarrow> bool \<Rightarrow> bool \<Rightarrow> bool \<Rightarrow> bool" where
  "lowFive b0 b1 b2 b3 b4 = ((b0 \<or> b1 \<or> b2 \<or> b3 \<or> b4) \<and> \<not> (b4 \<and> b3 \<and> (b2 \<or> (b1 \<and> b0))))"

definition latinFive :: "bool \<Rightarrow> bool \<Rightarrow> bool \<Rightarrow> bool \<Rightarrow> bool \<Rightarrow> bool" where
  "latinFive b0 b1 b2 b3 b4 = (\<not> (b4 \<and> b2 \<and> b1 \<and> b0))"

lemma isDigit_bits [code]:
  "isDigit (Char b0 b1 b2 b3 b4 b5 b6 b7) =
     (\<not> b7 \<and> \<not> b6 \<and> b5 \<and> b4 \<and> (\<not> b3 \<or> (\<not> b2 \<and> \<not> b1)))"
  by (cases b7; cases b6; cases b5; cases b4; (simp add: isDigit_def)?;
      cases b3; cases b2; cases b1; cases b0; simp add: isDigit_def)

lemma isSpace_bits [code]:
  "isSpace (Char b0 b1 b2 b3 b4 b5 b6 b7) =
     ((\<not> b7 \<and> \<not> b6 \<and> \<not> b5 \<and> \<not> b4 \<and> b3 \<and> (b0 \<or> b1 \<or> b2) \<and> \<not> (b2 \<and> b1))
      \<or> (\<not> b6 \<and> b5 \<and> \<not> b4 \<and> \<not> b3 \<and> \<not> b2 \<and> \<not> b1 \<and> \<not> b0))"
  by (cases b7; cases b6; cases b5; cases b4; (simp add: isSpace_def)?;
      cases b3; cases b2; cases b1; cases b0; simp add: isSpace_def)

lemma isLetter_bits [code]:
  "isLetter (Char b0 b1 b2 b3 b4 b5 b6 b7) = (\<not> b7 \<and> b6 \<and> lowFive b0 b1 b2 b3 b4)"
  by (cases b7; cases b6; cases b5; (simp add: isLetter_def lowerAZ_def upperAZ_def lowFive_def)?;
      cases b4; cases b3; cases b2; cases b1; cases b0;
      simp add: isLetter_def lowerAZ_def upperAZ_def lowFive_def)

lemma canonChar_bits [code]:
  "canonChar (Char b0 b1 b2 b3 b4 b5 b6 b7) =
     (if \<not> b7 \<and> b6 \<and> b5 \<and> lowFive b0 b1 b2 b3 b4
      then Char b0 b1 b2 b3 b4 False b6 b7 else Char b0 b1 b2 b3 b4 b5 b6 b7)"
proof (cases "b6 \<and> b5 \<and> \<not> b7")
  case True
  have "canonChar (Char b0 b1 b2 b3 b4 True True False) =
          (if lowFive b0 b1 b2 b3 b4 then Char b0 b1 b2 b3 b4 False True False
           else Char b0 b1 b2 b3 b4 True True False)"
    by (induct b4; induct b3; induct b2; induct b1; induct b0; code_simp)
  with True show ?thesis by simp
next
  case False
  then show ?thesis
    by (cases b7; cases b6; cases b5;
        simp add: canonChar_def lowerAZ_def upperAZ_def lowFive_def)
qed

lemma toLowerChar_bits [code]:
  "toLowerChar (Char b0 b1 b2 b3 b4 b5 b6 b7) =
     (if \<not> b5 \<and> b6 \<and> (if b7 then latinFive b0 b1 b2 b3 b4 else lowFive b0 b1 b2 b3 b4)
      then Char b0 b1 b2 b3 b4 True b6 b7 else Char b0 b1 b2 b3 b4 b5 b6 b7)"
proof (cases "b6 \<and> \<not> b5")
  case True
  have "toLowerChar (Char b0 b1 b2 b3 b4 False True b7) =
          (if (if b7 then latinFive b0 b1 b2 b3 b4 else lowFive b0 b1 b2 b3 b4)
           then Char b0 b1 b2 b3 b4 True True b7 else Char b0 b1 b2 b3 b4 False True b7)"
    by (induct b7; induct b4; induct b3; induct b2; induct b1; induct b0; code_simp)
  with True show ?thesis by simp
next
  case False
  then show ?thesis
    by (cases b7; cases b6; cases b5;
        simp add: toLowerChar_def lowerAZ_def upperAZ_def upperLatin1_def lowerLatin1_def
          lowFive_def latinFive_def)
qed

lemma toUpperChar_bits [code]:
  "toUpperChar (Char b0 b1 b2 b3 b4 b5 b6 b7) =
     (if b0 \<and> b1 \<and> b2 \<and> b3 \<and> b4 \<and> \<not> b5 \<and> b6 \<and> b7 then ''SS''
      else if b5 \<and> b6 \<and> (if b7 then latinFive b0 b1 b2 b3 b4 else lowFive b0 b1 b2 b3 b4)
      then [Char b0 b1 b2 b3 b4 False b6 b7] else [Char b0 b1 b2 b3 b4 b5 b6 b7])"
proof (cases "b6 \<and> b5")
  case True
  have "toUpperChar (Char b0 b1 b2 b3 b4 True True b7) =
          (if (if b7 then latinFive b0 b1 b2 b3 b4 else lowFive b0 b1 b2 b3 b4)
           then [Char b0 b1 b2 b3 b4 False True b7] else [Char b0 b1 b2 b3 b4 True True b7])"
    by (induct b7; induct b4; induct b3; induct b2; induct b1; induct b0; code_simp)
  with True show ?thesis by simp
next
  case False
  then show ?thesis
    by (cases b7; cases b6; cases b5;
        simp add: toUpperChar_def lowerAZ_def upperAZ_def upperLatin1_def lowerLatin1_def
          lowFive_def latinFive_def)
qed

section \<open>Properties of the speech parser\<close>

lemma digitsOf_all_digits: "c \<in> set (digitsOf text) \<Longrightarrow> isDigit c"
  by (simp add: digitsOf_def)

lemma parseCompoundNumbers_digits:
  "parseCompoundNumbers text = Some d \<Longrightarrow> c \<in> set d \<Longrightarrow> isDigit c"
  by (auto simp: parseCompoundNumbers_def Let_def digitsOf_def split: if_splits)

text \<open>
  Claim C10. Whenever \<open>parseSpokenCode\<close> reports success, the code it returns is a string
  of exactly four characters, each of them a decimal digit. This holds on all four paths
  that succeed: direct extraction, digit-word translation, compound-number expansion and
  the truncation of a longer digit sequence to its first four digits.
\<close>

theorem parseSpokenCode_four_digits:
  "success (parseSpokenCode speech) \<Longrightarrow>
     \<exists>c. code (parseSpokenCode speech) = Some c \<and> length c = 4 \<and> (\<forall>ch \<in> set c. isDigit ch)"
  unfolding parseSpokenCode_def Let_def
  by (auto split: if_splits dest: digitsOf_all_digits parseCompoundNumbers_digits in_set_takeD)

theorem parseSpokenCode_four_digits_witness:
  "success (parseSpokenCode ''forty 8 twenty 7'') \<and>
   (\<exists>c. code (parseSpokenCode ''forty 8 twenty 7'') = Some c \<and> length c = 4 \<and> list_all isDigit c)"
proof -
  have s: "success (parseSpokenCode ''forty 8 twenty 7'')" by code_simp
  from parseSpokenCode_four_digits [OF s] show ?thesis using s by (auto simp: list_all_iff)
qed

lemma phoneDigits_Nil: "phoneDigits [] = []"
  by code_simp

lemma normalizeCode_Nil: "normalizeCode [] = []"
  by code_simp

lemma replaceWords_digitPatterns_Nil: "replaceWords digitPatterns [] = []"
  by code_simp

lemma parseCompoundNumbers_Nil: "parseCompoundNumbers [] = None"
  by code_simp

text \<open>
  Claim C1. The three spoken forms of the code 4827: \<open>four eight two seven\<close> and
  \<open>the code is four eight two seven\<close> give the code 4827. The compound form
  \<open>forty eight twenty seven\<close> does not: the compound expansion is run on the text before
  digit-word translation, where \<open>forty\<close> and \<open>twenty\<close> become 40 and 20 while \<open>eight\<close> and
  \<open>seven\<close> stay words, so the pattern that joins a ten with the digit after it finds no
  digit, and the four digits 4020 are returned as the code.
\<close>

theorem parseSpokenCode_spoken_forms:
  "code (parseSpokenCode ''four eight two seven'') = Some ''4827'' \<and>
   code (parseSpokenCode ''the code is four eight two seven'') = Some ''4827'' \<and>
   replaceWords compounds ''forty eight twenty seven'' = ''40 eight 20 seven'' \<and>
   parseCompoundNumbers ''forty eight twenty seven'' = Some ''4020'' \<and>
   parseSpokenCode ''forty eight twenty seven'' =
     \<lparr>success = True, code = Some ''4020'', rawInput = ''forty eight twenty seven'',
      normalized = Some ''4020''\<rparr>"
  by code_simp

text \<open>
  Claim C5, as the code has it. The stages are tried in a fixed order: four digits after
  direct extraction are the code; else four digits after digit-word translation are the
  code; else a compound expansion of exactly four digits is the code, whole; else, when
  more than four digits remain after digit-word translation, the code is their leading
  four. A failure is returned only when fewer than four digits remain after digit-word
  translation, the direct extraction did not give four digits, and the compound expansion
  did not give exactly four.
\<close>

theorem parseSpokenCode_stages:
  "(length (digitsOf (normalizeCode (trim speech))) = 4 \<longrightarrow>
      code (parseSpokenCode speech) = Some (digitsOf (normalizeCode (trim speech)))) \<and>
   (length (digitsOf (normalizeCode (trim speech))) \<noteq> 4 \<and>
    length (digitsOf (replaceWords digitPatterns (normalizeCode (trim speech)))) = 4 \<longrightarrow>
      code (parseSpokenCode speech) =
        Some (digitsOf (replaceWords digitPatterns (normalizeCode (trim speech))))) \<and>
   (length (digitsOf (normalizeCode (trim speech))) \<noteq> 4 \<and>
    length (digitsOf (replaceWords digitPatterns (normalizeCode (trim speech)))) \<noteq> 4 \<and>
    compoundFour (normalizeCode (trim speech)) \<longrightarrow>
      code (parseSpokenCode speech) = parseCompoundNumbers (normalizeCode (trim speech))) \<and>
   (length (digitsOf (normalizeCode (trim speech))) \<noteq> 4 \<and>
    length (digitsOf (replaceWords digitPatterns (normalizeCode (trim speech)))) > 4 \<and>
    \<not> compoundFour (normalizeCode (trim speech)) \<longrightarrow>
      code (parseSpokenCode speech) =
        Some (take 4 (digitsOf (replaceWords digitPatterns (normalizeCode (trim speech)))))) \<and>
   (\<not> success (parseSpokenCode speech) \<longrightarrow>
      length (digitsOf (replaceWords digitPatterns (normalizeCode (trim speech)))) < 4 \<and>
      length (digitsOf (normalizeCode (trim speech))) \<noteq> 4 \<and>
      \<not> compoundFour (normalizeCode (trim speech)))"
proof (cases "speech = []")
  case True
  have "trim [] = []" by (simp add: trim_def)
  with True show ?thesis
    by (simp add: parseSpokenCode_def normalizeCode_Nil replaceWords_digitPatterns_Nil
          parseCompoundNumbers_Nil compoundFour_def digitsOf_def)
next
  case False
  then show ?thesis
    by (auto simp: parseSpokenCode_def Let_def compoundFour_def split: option.splits)
qed

theorem parseSpokenCode_stages_witness:
  "digitsOf (normalizeCode (trim ''one two three four five'')) = [] \<and>
   digitsOf (replaceWords digitPatterns (normalizeCode (trim ''one two three four five''))) = ''12345'' \<and>
   code (parseSpokenCode ''one two three four five'') = Some ''1234'' \<and>
   \<not> success (parseSpokenCode ''hello'') \<and>
   digitsOf (replaceWords digitPatterns (normalizeCode (trim ''hello''))) = []"
proof -
  have a: "digitsOf (normalizeCode (trim ''one two three four five'')) = []"
    by code_simp
  have b: "digitsOf (replaceWords digitPatterns (normalizeCode (trim ''one two three four five''))) = ''12345''"
    by code_simp
  have c: "\<not> compoundFour (normalizeCode (trim ''one two three four five''))"
    by code_simp
  have d: "\<not> success (parseSpokenCode ''hello'')"
    by code_simp
  have e: "digitsOf (replaceWords digitPatterns (normalizeCode (trim ''hello''))) = []"
    by code_simp
  have "code (parseSpokenCode ''one two three four five'') = Some ''1234''"
    using parseSpokenCode_stages [of "''one two three four five''"] by (simp add: a b c)
  moreover have
    "length (digitsOf (replaceWords digitPatterns (normalizeCode (trim ''hello'')))) < 4"
    using parseSpokenCode_stages [of "''hello''"] d by blast
  ultimately show ?thesis
    by (simp add: a b d e)
qed

text \<open>
  The claim as the specification words it fails twice. In \<open>1 2 30 4\<close> five digits remain
  after direct extraction, and the code is not their leading four (1230) but the compound
  expansion 1234. In \<open>ten eleven twelve\<close> the compound expansion recovers the five digits
  11112, and the result is a failure.
\<close>

theorem parseSpokenCode_leading_four_counterexample:
  "digitsOf (normalizeCode (trim ''1 2 30 4'')) = ''12304'' \<and>
   code (parseSpokenCode ''1 2 30 4'') = Some ''1234'' \<and>
   code (parseSpokenCode ''1 2 30 4'') \<noteq>
     Some (take 4 (digitsOf (normalizeCode (trim ''1 2 30 4'')))) \<and>
   parseCompoundNumbers (normalizeCode (trim ''ten eleven twelve'')) = Some ''11112'' \<and>
   \<not> success (parseSpokenCode ''ten eleven twelve'')"
  by code_simp

text \<open>
  Claim C6. With \<open>d\<close> the digits left after filler stripping and digit-word translation,
  \<open>parsePhoneNumber\<close> succeeds exactly when \<open>d\<close> has at least ten digits; ten digits are
  returned after \<open>+1\<close>; eleven digits that start with 1 are returned after \<open>+\<close>; any other
  longer sequence gives its trailing ten digits after \<open>+1\<close>.
\<close>

theorem parsePhoneNumber_digits:
  "(phoneSuccess (parsePhoneNumber speech) \<longleftrightarrow> length (phoneDigits speech) \<ge> 10) \<and>
   (length (phoneDigits speech) = 10 \<longrightarrow>
       number (parsePhoneNumber speech) = Some (''+1'' @ phoneDigits speech)) \<and>
   (length (phoneDigits speech) = 11 \<and> hd (phoneDigits speech) = CHR ''1'' \<longrightarrow>
       number (parsePhoneNumber speech) = Some (''+'' @ phoneDigits speech)) \<and>
   (length (phoneDigits speech) > 10 \<and>
      \<not> (length (phoneDigits speech) = 11 \<and> hd (phoneDigits speech) = CHR ''1'') \<longrightarrow>
       number (parsePhoneNumber speech) =
         Some (''+1'' @ drop (length (phoneDigits speech) - 10) (phoneDigits speech)))"
proof (cases "speech = []")
  case True
  then show ?thesis by (simp add: parsePhoneNumber_def phoneDigits_Nil)
next
  case False
  then show ?thesis by (simp add: parsePhoneNumber_def Let_def sliceLast_def)
qed

theorem parsePhoneNumber_digits_witness:
  "phoneDigits ''four one five five five five one two three four'' = ''4155551234'' \<and>
   number (parsePhoneNumber ''four one five five five five one two three four'') =
     Some ''+14155551234'' \<and>
   phoneDigits ''1 415 555 1234'' = ''14155551234'' \<and>
   number (parsePhoneNumber ''1 415 555 1234'') = Some ''+14155551234'' \<and>
   phoneDigits ''99 415 555 1234'' = ''994155551234'' \<and>
   number (parsePhoneNumber ''99 415 555 1234'') = Some ''+14155551234'' \<and>
   phoneDigits ''five five five'' = ''555'' \<and>
   \<not> phoneSuccess (parsePhoneNumber ''five five five'')"
proof -
  have d1: "phoneDigits ''four one five five five five one two three four'' = ''4155551234''"
    by code_simp
  have d2: "phoneDigits ''1 415 555 1234'' = ''14155551234''"
    by code_simp
  have d3: "phoneDigits ''99 415 555 1234'' = ''994155551234''"
    by code_simp
  have d4: "phoneDigits ''five five five'' = ''555''"
    by code_simp
  show ?thesis
    using parsePhoneNumber_digits [of "''four one five five five five one two three four''"]
      parsePhoneNumber_digits [of "''1 415 555 1234''"]
      parsePhoneNumber_digits [of "''99 415 555 1234''"]
      parsePhoneNumber_digits [of "''five five five''"]
    by (simp add: d1 d2 d3 d4)
qed

text \<open>
  Claim C7. \<open>sanitizeName\<close> of the speech parser returns the empty string for the empty
  transcript, through its first guard; its copy in the voice-agent route returns the
  placeholder there, as both do for a transcript of white space.
\<close>

theorem sanitizeName_empty:
  "sanitizeName [] = [] \<and> retell_sanitizeName [] = ''Caller'' \<and>
   sanitizeName ''  '' = ''Caller'' \<and> retell_sanitizeName ''  '' = ''Caller''"
  by code_simp

text \<open>
  Away from the empty transcript both functions return a name that is not empty, at most
  100 characters long and made of ASCII letters, white space, apostrophes and hyphens.
\<close>

lemma sanitizeName_nonempty: "speech \<noteq> [] \<Longrightarrow> sanitizeName speech \<noteq> []"
  by (simp add: sanitizeName_def Let_def)

lemma retell_sanitizeName_nonempty: "retell_sanitizeName speech \<noteq> []"
  by (simp add: retell_sanitizeName_def Let_def)

lemma titleCase_bounded:
  "length (titleCase name) \<le> 100 \<and>
   list_all (\<lambda>c. isLetter c \<or> isSpace c \<or> c = CHR 0x27 \<or> c = CHR ''-'') (titleCase name)"
  by (auto simp: titleCase_def keepNameChars_def list_all_iff dest: in_set_takeD)

section \<open>Properties of the categorical matches\<close>

lemma str_includes_sublist: "str_includes s k \<longleftrightarrow> sublist k s"
  by (induction s) (auto simp: sublist_Cons_right)

lemma anyKeyword_iff: "anyKeyword input kws \<longleftrightarrow> (\<exists>k \<in> set kws. sublist k input)"
  by (induction kws) (auto simp: str_includes_sublist)

lemma firstKey_find:
  "firstKey input table =
     map_option fst (find (\<lambda>(key, keywords). \<exists>k \<in> set keywords. sublist k input) table)"
  by (induction table) (auto simp: anyKeyword_iff)

lemma sublist_dropWhile:
  assumes "k \<noteq> []" and "\<not> P (hd k)"
  shows "sublist k (dropWhile P s) \<longleftrightarrow> sublist k s"
proof (induction s)
  case Nil
  show ?case by simp
next
  case (Cons c cs)
  show ?case
  proof (cases "P c")
    case True
    with assms have "\<not> prefix k (c # cs)"
      by (cases k) auto
    with True Cons show ?thesis
      by (simp add: sublist_Cons_right)
  next
    case False
    then show ?thesis by simp
  qed
qed

lemma sublist_trim:
  assumes "k \<noteq> []" and "\<not> isSpace (hd k)" and "\<not> isSpace (last k)"
  shows "sublist k (trim s) \<longleftrightarrow> sublist k s"
proof -
  have "sublist k (trim s) \<longleftrightarrow> sublist k (rev (dropWhile isSpace (rev (dropWhile isSpace s))))"
    by (simp only: trim_def)
  also have "\<dots> \<longleftrightarrow> sublist (rev k) (dropWhile isSpace (rev (dropWhile isSpace s)))"
    by (rule sublist_rev_right)
  also have "\<dots> \<longleftrightarrow> sublist (rev k) (rev (dropWhile isSpace s))"
  proof (rule sublist_dropWhile)
    show "rev k \<noteq> []" using assms(1) by simp
    show "\<not> isSpace (hd (rev k))" using assms(1,3) by (simp add: hd_rev)
  qed
  also have "\<dots> \<longleftrightarrow> sublist k (dropWhile isSpace s)"
    by (rule sublist_rev)
  also have "\<dots> \<longleftrightarrow> sublist k s"
    using assms(1,2) by (rule sublist_dropWhile)
  finally show ?thesis .
qed

lemma firstKey_trim_lower:
  assumes "plainTable table"
  shows "firstKey (trim (toLowerCase s)) table = specFirstMatch table s"
proof -
  have same: "(\<exists>k \<in> set kws. sublist k (trim (toLowerCase s))) \<longleftrightarrow>
        (\<exists>k \<in> set kws. ciSubstring k s)"
    if "(key, kws) \<in> set table" for key kws
  proof -
    from assms that have "\<forall>k \<in> set kws. plainKeyword k"
      by (auto simp: plainTable_def list_all_iff)
    then show ?thesis
      by (auto simp: plainKeyword_def ciSubstring_def sublist_trim)
  qed
  have "find (\<lambda>(key, kws). \<exists>k \<in> set kws. sublist k (trim (toLowerCase s))) table =
        find (\<lambda>(key, kws). \<exists>k \<in> set kws. ciSubstring k s) table"
  proof (rule find_cong)
    show "table = table" by simp
  next
    fix x assume x: "x \<in> set table"
    obtain key kws where "x = (key, kws)" by (cases x)
    with x same show "(case x of (key, kws) \<Rightarrow> \<exists>k \<in> set kws. sublist k (trim (toLowerCase s))) =
               (case x of (key, kws) \<Rightarrow> \<exists>k \<in> set kws. ciSubstring k s)"
      by simp
  qed
  then show ?thesis
    by (simp add: firstKey_find specFirstMatch_def)
qed

lemma plainTable_verticals: "plainTable verticals"
  by code_simp

lemma plainTable_pains: "plainTable pains"
  by code_simp

lemma normalizeVertical_specFirstMatch:
  "normalizeVertical s = (case specFirstMatch retellVerticals s of None \<Rightarrow> ''other'' | Some key \<Rightarrow> key)"
proof -
  have low: "toLowerCase ''real estate'' = ''real estate''" "toLowerCase ''realtor'' = ''realtor''"
    "toLowerCase ''property'' = ''property''" "toLowerCase ''insurance'' = ''insurance''"
    "toLowerCase ''policy'' = ''policy''" "toLowerCase ''mortgage'' = ''mortgage''"
    "toLowerCase ''loan'' = ''loan''" "toLowerCase ''lending'' = ''lending''"
    by code_simp+
  show ?thesis
    by (simp add: normalizeVertical_def specFirstMatch_def retellVerticals_def ciSubstring_def
          str_includes_sublist low Let_def)
qed

lemma normalizePain_specFirstMatch:
  "normalizePain s = (case specFirstMatch retellPains s of None \<Rightarrow> ''other'' | Some key \<Rightarrow> key)"
proof -
  have low: "toLowerCase ''spam'' = ''spam''" "toLowerCase ''flag'' = ''flag''"
    "toLowerCase ''blocked'' = ''blocked''" "toLowerCase ''delay'' = ''delay''"
    "toLowerCase ''awkward'' = ''awkward''" "toLowerCase ''pause'' = ''pause''"
    "toLowerCase ''answer'' = ''answer''" "toLowerCase ''rate'' = ''rate''"
    "toLowerCase ''pickup'' = ''pickup''" "toLowerCase ''speed'' = ''speed''"
    "toLowerCase ''slow'' = ''slow''" "toLowerCase ''fast'' = ''fast''"
    by code_simp+
  show ?thesis
    by (simp add: normalizePain_def specFirstMatch_def retellPains_def ciSubstring_def
          str_includes_sublist low Let_def)
qed

text \<open>
  Claim C4, as the code has it. \<open>parseVerticalSelection\<close> and \<open>parsePainSelection\<close> of
  the speech parser return the key of the first table entry, in table order, one of whose
  keywords is a case-insensitive substring of the transcript, and no key when there is
  none. \<open>normalizeVertical\<close> and \<open>normalizePain\<close> of the voice-agent route do the same on
  their shorter keyword lists, and return the default key \<open>other\<close> when there is none.
\<close>

theorem category_first_match:
  "parseVerticalSelection s = specFirstMatch verticals s \<and>
   parsePainSelection s = specFirstMatch pains s \<and>
   normalizeVertical s = (case specFirstMatch retellVerticals s of None \<Rightarrow> ''other'' | Some key \<Rightarrow> key) \<and>
   normalizePain s = (case specFirstMatch retellPains s of None \<Rightarrow> ''other'' | Some key \<Rightarrow> key)"
  by (simp add: parseVerticalSelection_def parsePainSelection_def firstKey_trim_lower
        plainTable_verticals plainTable_pains normalizeVertical_specFirstMatch normalizePain_specFirstMatch)

theorem category_first_match_witness:
  "parseVerticalSelection ''I sell Insurance for Real Estate'' = Some ''real_estate'' \<and>
   parsePainSelection ''hello'' = None \<and>
   normalizeVertical ''Home LOANS'' = ''mortgage'' \<and>
   normalizePain ''calls are slow, nobody answers'' = ''low_answer_rates''"
proof -
  have "specFirstMatch verticals ''I sell Insurance for Real Estate'' = Some ''real_estate''"
    "specFirstMatch pains ''hello'' = None"
    "specFirstMatch retellVerticals ''Home LOANS'' = Some ''mortgage''"
    "specFirstMatch retellPains ''calls are slow, nobody answers'' = Some ''low_answer_rates''"
    by code_simp+
  then show ?thesis
    using category_first_match [of "''I sell Insurance for Real Estate''"]
      category_first_match [of "''hello''"]
      category_first_match [of "''Home LOANS''"]
      category_first_match [of "''calls are slow, nobody answers''"]
    by simp
qed

text \<open>
  No keyword occurs in \<open>hello\<close>, and the two functions of the voice-agent route return the
  default key \<open>other\<close> for it.
\<close>

theorem category_default_counterexample:
  "specFirstMatch retellVerticals ''hello'' = None \<and> normalizeVertical ''hello'' = ''other'' \<and>
   specFirstMatch retellPains ''hello'' = None \<and> normalizePain ''hello'' = ''other''"
  by code_simp

section \<open>Properties of the schedule answer\<close>

lemma list_ex_includes:
  "list_ex (\<lambda>word. str_includes (toLowerCase s) word) ws \<longleftrightarrow>
     (\<exists>w \<in> set ws. sublist w (toLowerCase s))"
  by (simp add: list_ex_iff str_includes_sublist)

lemma affirmations_lower: "map toLowerCase affirmations = affirmations"
  by code_simp

lemma affirmation_ciSubstring:
  "w \<in> set affirmations \<Longrightarrow> ciSubstring w s \<longleftrightarrow> sublist w (toLowerCase s)"
proof -
  assume "w \<in> set affirmations"
  then have "toLowerCase w \<in> set (map toLowerCase affirmations) \<and> toLowerCase w = w"
    by (auto simp: affirmations_def toLowerCase_def toLowerChar_bits)
  then show ?thesis by (simp add: ciSubstring_def)
qed

lemma isYes_iff: "isYes (toLowerCase s) \<longleftrightarrow> (\<exists>w \<in> set affirmations. ciSubstring w s)"
  by (simp add: isYes_def list_ex_includes affirmation_ciSubstring)

lemma twilioWantsSchedule_iff:
  "twilioWantsSchedule s \<longleftrightarrow> (\<exists>w \<in> set twilioAffirmations. ciSubstring w s)"
proof -
  have low: "toLowerCase ''yes'' = ''yes''" "toLowerCase ''yeah'' = ''yeah''"
    "toLowerCase ''sure'' = ''sure''" "toLowerCase ''okay'' = ''okay''"
    "toLowerCase ''yep'' = ''yep''"
    by code_simp+
  show ?thesis
    by (simp add: twilioWantsSchedule_def twilioAffirmations_def ciSubstring_def
          str_includes_sublist low Let_def)
qed

text \<open>
  What the two routes do. In the voice-agent route a transcript is affirmative exactly
  when one of the seven words occurs in it, whatever the case of its letters; in the
  route \<open>POST /schedule\<close> exactly when one of the five words \<open>yes\<close>, \<open>yeah\<close>, \<open>sure\<close>,
  \<open>okay\<close>, \<open>yep\<close> does. An affirmative transcript appends the events
  \<open>schedule_requested\<close> and \<open>appointment_scheduled\<close>, any other appends
  \<open>schedule_declined\<close>.
\<close>

lemma schedule_answer_branches:
  "(isYes (toLowerCase wants) \<longleftrightarrow> (\<exists>w \<in> set affirmations. ciSubstring w wants)) \<and>
   (twilioWantsSchedule speech \<longleftrightarrow> (\<exists>w \<in> set twilioAffirmations. ciSubstring w speech)) \<and>
   (scheduleSessionId stateId argId \<noteq> [] \<longrightarrow>
      map eventType (events (snd (snd (handleScheduleAppointment clk day stateId argId wants st)))) =
        map eventType (events st) @
          (if \<exists>w \<in> set affirmations. ciSubstring w wants
           then [''schedule_requested'', ''appointment_scheduled'']
           else [''schedule_declined''])) \<and>
   map eventType (events (snd (twilioSchedule clk day sessionId speech st))) =
     map eventType (events st) @
       (if \<exists>w \<in> set twilioAffirmations. ciSubstring w speech
        then [''schedule_requested'', ''appointment_scheduled'']
        else [''schedule_declined'']) @ [''demo_completed'']"
  by (simp add: handleScheduleAppointment_def twilioSchedule_def Let_def createEvent_def
        isYes_iff twilioWantsSchedule_iff)

lemma schedule_answer_branches_example:
  "map eventType (events (snd (snd (handleScheduleAppointment (\<lambda>n. 0) ''Monday, March 3''
      (Some ''s1'') [] ''Absolutely!'' emptyStore)))) = [''schedule_requested'', ''appointment_scheduled''] \<and>
   map eventType (events (snd (twilioSchedule (\<lambda>n. 0) ''Monday, March 3'' ''s1'' ''Yeah sure'' emptyStore))) =
     [''schedule_requested'', ''appointment_scheduled'', ''demo_completed''] \<and>
   map eventType (events (snd (twilioSchedule (\<lambda>n. 0) ''Monday, March 3'' ''s1'' ''no thanks'' emptyStore))) =
     [''schedule_declined'', ''demo_completed'']"
proof -
  have a: "\<exists>w \<in> set affirmations. ciSubstring w ''Absolutely!''"
    by code_simp
  have b: "\<exists>w \<in> set twilioAffirmations. ciSubstring w ''Yeah sure''"
    by code_simp
  have c: "\<not> (\<exists>w \<in> set twilioAffirmations. ciSubstring w ''no thanks'')"
    by code_simp
  have d: "scheduleSessionId (Some ''s1'') [] \<noteq> []"
    by (simp add: scheduleSessionId_def)
  show ?thesis
    using schedule_answer_branches [of "''Absolutely!''" "''Yeah sure''" "Some ''s1''" "[]" "\<lambda>n. 0" "''Monday, March 3''" emptyStore "''s1''"]
      schedule_answer_branches [of "''Absolutely!''" "''no thanks''" "Some ''s1''" "[]" "\<lambda>n. 0" "''Monday, March 3''" emptyStore "''s1''"]
      a b c d
    by (simp add: emptyStore_def)
qed

text \<open>
  Claim C8. A transcript of the schedule-answer step is affirmative if and only if it
  contains one of the seven words \<open>yes\<close>, \<open>yeah\<close>, \<open>sure\<close>, \<open>okay\<close>, \<open>yep\<close>,
  \<open>absolutely\<close>, \<open>definitely\<close>, and this decides between the branch of
  \<open>schedule_requested\<close> and \<open>appointment_scheduled\<close> and the branch of
  \<open>schedule_declined\<close>. The voice-agent route does so. The route \<open>POST /schedule\<close> does
  not: the transcript \<open>absolutely\<close> contains a word of the set, the voice-agent route
  takes the scheduling branch for it, and the route \<open>POST /schedule\<close> takes the declining
  branch.
\<close>

theorem twilioSchedule_misses_absolutely:
  "(\<exists>w \<in> set affirmations. str_includes ''absolutely'' w) \<and>
   map eventType (events (snd (snd (handleScheduleAppointment (\<lambda>n. 0) ''Monday, March 3''
      (Some ''s1'') [] ''absolutely'' emptyStore)))) =
     [''schedule_requested'', ''appointment_scheduled''] \<and>
   \<not> twilioWantsSchedule ''absolutely'' \<and>
   map eventType (events (snd (twilioSchedule (\<lambda>n. 0) ''Monday, March 3'' ''s1'' ''absolutely'' emptyStore))) =
     [''schedule_declined'', ''demo_completed'']"
  by code_simp

section \<open>Properties of the rate limiter\<close>

lemma recordFailedAttempt_below:
  assumes "unlocked st caller" and "attemptsOf st caller + 1 < maxAttempts cfg"
  shows "unlocked (snd (recordFailedAttempt cfg clk caller st)) caller \<and>
         attemptsOf (snd (recordFailedAttempt cfg clk caller st)) caller = attemptsOf st caller + 1"
  using assms
  by (auto simp: recordFailedAttempt_def unlocked_def attemptsOf_def Let_def split: option.splits)

lemma recordFailedAttempt_reaches:
  assumes "unlocked st caller" and "attemptsOf st caller + 1 = maxAttempts cfg"
  shows "\<exists>r. rateLimits (snd (recordFailedAttempt cfg clk caller st)) caller = Some r \<and>
             failedAttempts r = maxAttempts cfg \<and>
             lockedUntil r = Some (clk 1 + lockoutSeconds cfg * 1000)"
  using assms
  by (auto simp: recordFailedAttempt_def unlocked_def attemptsOf_def Let_def split: option.splits)

lemma failedAttemptsRun_below:
  assumes "unlocked st caller" and "attemptsOf st caller + int (length clks) < maxAttempts cfg"
  shows "unlocked (failedAttemptsRun cfg caller clks st) caller \<and>
         attemptsOf (failedAttemptsRun cfg caller clks st) caller =
           attemptsOf st caller + int (length clks)"
  using assms
proof (induction clks arbitrary: st)
  case Nil
  then show ?case by simp
next
  case (Cons clk rest)
  let ?st1 = "snd (recordFailedAttempt cfg clk caller st)"
  from Cons.prems have below: "attemptsOf st caller + 1 < maxAttempts cfg"
    by simp
  from recordFailedAttempt_below [OF Cons.prems(1) below]
  have u: "unlocked ?st1 caller" and n: "attemptsOf ?st1 caller = attemptsOf st caller + 1"
    by auto
  from n Cons.prems(2) have "attemptsOf ?st1 caller + int (length rest) < maxAttempts cfg"
    by simp
  from Cons.IH [OF u this] n show ?case
    by simp
qed

lemma failedAttemptsRun_append:
  "failedAttemptsRun cfg caller (xs @ ys) st =
     failedAttemptsRun cfg caller ys (failedAttemptsRun cfg caller xs st)"
  by (induction xs arbitrary: st) simp_all

lemma failedAttemptsRun_locks:
  assumes "unlocked st caller" and "clks \<noteq> []"
    and "attemptsOf st caller + int (length clks) = maxAttempts cfg"
  shows "\<exists>r. rateLimits (failedAttemptsRun cfg caller clks st) caller = Some r \<and>
             failedAttempts r = maxAttempts cfg \<and>
             lockedUntil r = Some (last clks 1 + lockoutSeconds cfg * 1000)"
proof -
  from assms(2) have split: "clks = butlast clks @ [last clks]"
    by simp
  from assms(2,3) have "attemptsOf st caller + int (length (butlast clks)) < maxAttempts cfg"
    by (cases clks rule: rev_cases) auto
  from failedAttemptsRun_below [OF assms(1) this]
  have u: "unlocked (failedAttemptsRun cfg caller (butlast clks) st) caller"
    and n: "attemptsOf (failedAttemptsRun cfg caller (butlast clks) st) caller =
              attemptsOf st caller + int (length (butlast clks))"
    by auto
  from n assms(2,3)
  have "attemptsOf (failedAttemptsRun cfg caller (butlast clks) st) caller + 1 = maxAttempts cfg"
    by (cases clks rule: rev_cases) auto
  from recordFailedAttempt_reaches [OF u this, of "last clks"]
  have "\<exists>r. rateLimits (failedAttemptsRun cfg caller (butlast clks @ [last clks]) st) caller = Some r \<and>
             failedAttempts r = maxAttempts cfg \<and>
             lockedUntil r = Some (last clks 1 + lockoutSeconds cfg * 1000)"
    by (simp add: failedAttemptsRun_append)
  with split show ?thesis by simp
qed

lemma checkRateLimit_unlocked:
  assumes "unlocked st caller" and "attemptsOf st caller < maxAttempts cfg"
  shows "checkRateLimit cfg clk caller st =
           (\<lparr>allowed = True, remainingAttempts = Some (maxAttempts cfg - attemptsOf st caller),
             checkLockedUntil = None\<rparr>, st)"
  using assms
  by (auto simp: checkRateLimit_def unlocked_def attemptsOf_def Let_def split: option.splits)

text \<open>
  Claim C3. A caller without a record makes exactly \<open>maxAttempts\<close> (at least one) failed
  attempts in a row. After any smaller number \<open>k\<close> of them a check is allowed, with
  \<open>maxAttempts - k\<close> attempts remaining, and only the last attempt of the run reports a
  lockout. After the last one, a check whose clock is before the expiry of the lockout,
  which is \<open>lockoutSeconds\<close> after the last attempt, is refused and reports that expiry,
  which lies in its future. A check at or after the expiry, on a clock that does not run
  backwards, resets the counter to zero, clears the lockout and is allowed with the
  full budget.
\<close>

theorem rate_limit_lockout:
  assumes "1 \<le> maxAttempts cfg"
    and "rateLimits st caller = None"
    and "int (length clks) = maxAttempts cfg"
  shows "(\<forall>k < length clks.
            checkRateLimit cfg clk caller (failedAttemptsRun cfg caller (take k clks) st) =
              (\<lparr>allowed = True, remainingAttempts = Some (maxAttempts cfg - int k),
                checkLockedUntil = None\<rparr>,
               failedAttemptsRun cfg caller (take k clks) st) \<and>
            locked (fst (recordFailedAttempt cfg (clks ! k) caller
                           (failedAttemptsRun cfg caller (take k clks) st))) =
              (Suc k = length clks)) \<and>
         (clk 0 < last clks 1 + lockoutSeconds cfg * 1000 \<longrightarrow>
            checkRateLimit cfg clk caller (failedAttemptsRun cfg caller clks st) =
              (\<lparr>allowed = False, remainingAttempts = None,
                checkLockedUntil = Some (last clks 1 + lockoutSeconds cfg * 1000)\<rparr>,
               failedAttemptsRun cfg caller clks st)) \<and>
         (last clks 1 + lockoutSeconds cfg * 1000 \<le> clk 0 \<and> clk 0 \<le> clk 1 \<longrightarrow>
            fst (checkRateLimit cfg clk caller (failedAttemptsRun cfg caller clks st)) =
              \<lparr>allowed = True, remainingAttempts = Some (maxAttempts cfg), checkLockedUntil = None\<rparr> \<and>
            attemptsOf (snd (checkRateLimit cfg clk caller (failedAttemptsRun cfg caller clks st))) caller = 0 \<and>
            unlocked (snd (checkRateLimit cfg clk caller (failedAttemptsRun cfg caller clks st))) caller)"
proof -
  from assms(2) have u: "unlocked st caller" and z: "attemptsOf st caller = 0"
    by (simp_all add: unlocked_def attemptsOf_def)
  from assms(1,3) have ne: "clks \<noteq> []"
    by auto
  have before: "checkRateLimit cfg clk caller (failedAttemptsRun cfg caller (take k clks) st) =
              (\<lparr>allowed = True, remainingAttempts = Some (maxAttempts cfg - int k),
                checkLockedUntil = None\<rparr>,
               failedAttemptsRun cfg caller (take k clks) st) \<and>
            locked (fst (recordFailedAttempt cfg (clks ! k) caller
                           (failedAttemptsRun cfg caller (take k clks) st))) =
              (Suc k = length clks)"
    if k: "k < length clks" for k
  proof -
    let ?st = "failedAttemptsRun cfg caller (take k clks) st"
    from k z assms(3) have "attemptsOf st caller + int (length (take k clks)) < maxAttempts cfg"
      by simp
    from failedAttemptsRun_below [OF u this] z k
    have uk: "unlocked ?st caller" and nk: "attemptsOf ?st caller = int k"
      by simp_all
    from k assms(3) nk have lt: "attemptsOf ?st caller < maxAttempts cfg"
      by simp
    have "locked (fst (recordFailedAttempt cfg (clks ! k) caller ?st)) =
            (attemptsOf ?st caller + 1 \<ge> maxAttempts cfg)"
      using uk by (auto simp: recordFailedAttempt_def attemptsOf_def unlocked_def Let_def
                     split: option.splits)
    also have "\<dots> = (Suc k = length clks)"
      using nk k assms(3) by auto
    finally show ?thesis
      using checkRateLimit_unlocked [OF uk lt, of clk] nk by simp
  qed
  from z assms(3) have "attemptsOf st caller + int (length clks) = maxAttempts cfg"
    by simp
  from failedAttemptsRun_locks [OF u ne this]
  obtain r where r: "rateLimits (failedAttemptsRun cfg caller clks st) caller = Some r"
    and l: "lockedUntil r = Some (last clks 1 + lockoutSeconds cfg * 1000)"
    by blast
  have after: "(clk 0 < last clks 1 + lockoutSeconds cfg * 1000 \<longrightarrow>
            checkRateLimit cfg clk caller (failedAttemptsRun cfg caller clks st) =
              (\<lparr>allowed = False, remainingAttempts = None,
                checkLockedUntil = Some (last clks 1 + lockoutSeconds cfg * 1000)\<rparr>,
               failedAttemptsRun cfg caller clks st)) \<and>
         (last clks 1 + lockoutSeconds cfg * 1000 \<le> clk 0 \<and> clk 0 \<le> clk 1 \<longrightarrow>
            fst (checkRateLimit cfg clk caller (failedAttemptsRun cfg caller clks st)) =
              \<lparr>allowed = True, remainingAttempts = Some (maxAttempts cfg), checkLockedUntil = None\<rparr> \<and>
            attemptsOf (snd (checkRateLimit cfg clk caller (failedAttemptsRun cfg caller clks st))) caller = 0 \<and>
            unlocked (snd (checkRateLimit cfg clk caller (failedAttemptsRun cfg caller clks st))) caller)"
    using r l by (auto simp: checkRateLimit_def attemptsOf_def unlocked_def)
  from before after show ?thesis
    by blast
qed

theorem rate_limit_lockout_witness:
  "fst (checkRateLimit demoConfig (\<lambda>n. 2500) ''+15550100''
     (failedAttemptsRun demoConfig ''+15550100'' [\<lambda>n. 1000, \<lambda>n. 2000] emptyStore)) =
     \<lparr>allowed = True, remainingAttempts = Some 1, checkLockedUntil = None\<rparr> \<and>
   \<not> locked (fst (recordFailedAttempt demoConfig (\<lambda>n. 2000) ''+15550100''
     (failedAttemptsRun demoConfig ''+15550100'' [\<lambda>n. 1000] emptyStore))) \<and>
   locked (fst (recordFailedAttempt demoConfig (\<lambda>n. 3000) ''+15550100''
     (failedAttemptsRun demoConfig ''+15550100'' [\<lambda>n. 1000, \<lambda>n. 2000] emptyStore))) \<and>
   checkRateLimit demoConfig (\<lambda>n. 4000) ''+15550100''
     (failedAttemptsRun demoConfig ''+15550100'' [\<lambda>n. 1000, \<lambda>n. 2000, \<lambda>n. 3000] emptyStore) =
     (\<lparr>allowed = False, remainingAttempts = None, checkLockedUntil = Some 63000\<rparr>,
      failedAttemptsRun demoConfig ''+15550100'' [\<lambda>n. 1000, \<lambda>n. 2000, \<lambda>n. 3000] emptyStore) \<and>
   fst (checkRateLimit demoConfig (\<lambda>n. 63000) ''+15550100''
     (failedAttemptsRun demoConfig ''+15550100'' [\<lambda>n. 1000, \<lambda>n. 2000, \<lambda>n. 3000] emptyStore)) =
     \<lparr>allowed = True, remainingAttempts = Some 3, checkLockedUntil = None\<rparr>"
proof -
  have h: "1 \<le> maxAttempts demoConfig" "rateLimits emptyStore ''+15550100'' = None"
    "int (length [\<lambda>n. 1000, \<lambda>n. 2000, (\<lambda>n. 3000) :: clock]) = maxAttempts demoConfig"
    by (simp_all add: demoConfig_def emptyStore_def)
  note before = rate_limit_lockout [OF h, of "\<lambda>n. 2500", THEN conjunct1, rule_format]
  note after = rate_limit_lockout [OF h, THEN conjunct2]
  show ?thesis
    using before [of 1] before [of 2] after [of "\<lambda>n. 4000"] after [of "\<lambda>n. 63000"]
    by (simp add: demoConfig_def)
qed

section \<open>Properties of the session store\<close>



text \<open>
  Called twice: a second call for the same identity, before the expiry the first call
  returned, returns the same summary and changes nothing, whether the first call found the
  session or created it.
\<close>

lemma find_append_None: "find P xs = None \<Longrightarrow> find P (xs @ ys) = find P ys"
  by (induction xs) (auto split: if_splits)

lemma createSession_twice:
  assumes first: "createSession cfg clk rnd newId token st = Inr (sm, st')"
    and later: "clk 0 \<le> clk' 0"
    and live: "clk' 0 < summaryExpiresAt sm"
  shows "createSession cfg clk' rnd' newId' token st' = Inr (sm, st')"
proof -
  let ?P = "\<lambda>s. browserToken s = token \<and> isLive (clk 0) s"
  let ?P' = "\<lambda>s. browserToken s = token \<and> isLive (clk' 0) s"
  have weaker: "?P' s \<Longrightarrow> ?P s" for s
    using later by (auto simp: isLive_def)
  show ?thesis
  proof (cases "find ?P (sessions st)")
    case (Some e)
    with first have eq: "sm = summaryOf e" "st' = st"
      by (auto simp: createSession_def)
    from Some obtain i where i: "i < length (sessions st)" "?P (sessions st ! i)"
      "e = sessions st ! i" "\<forall>j < i. \<not> ?P (sessions st ! j)"
      by (auto simp: find_Some_iff)
    from i(2,3) live eq have "?P' (sessions st ! i)"
      by (auto simp: isLive_def summaryOf_def)
    moreover from i(4) weaker have "\<forall>j < i. \<not> ?P' (sessions st ! j)"
      by blast
    ultimately have "find ?P' (sessions st) = Some e"
      using i(1,3) by (auto simp: find_Some_iff)
    with eq show ?thesis
      by (simp add: createSession_def)
  next
    case None
    with first obtain fresh where g: "generateUniquePairCode clk rnd st = Inr fresh"
      by (auto simp: createSession_def split: sum.splits)
    let ?new = "\<lparr>session_id = newId, browserToken = token, pairCode = fresh,
                  status = CREATED, callerNumber = None, callerName = None,
                  callSid = None, activeUntil = None,
                  expiresAt = clk 101 + expiryMinutes cfg * 60 * 1000,
                  createdAt = clk 102\<rparr>"
    from None g first have eq: "sm = summaryOf ?new" "st' = st\<lparr>sessions := sessions st @ [?new]\<rparr>"
      by (auto simp: createSession_def Let_def)
    from None weaker have "find ?P' (sessions st) = None"
      by (auto simp: find_None_iff)
    moreover from live eq have "?P' ?new"
      by (simp add: isLive_def summaryOf_def)
    ultimately have "find ?P' (sessions st') = Some ?new"
      using eq by (simp add: find_append_None)
    with eq show ?thesis
      by (simp add: createSession_def)
  qed
qed

section \<open>Properties of pairing\<close>

lemma find_created_after_update:
  assumes only: "\<forall>x \<in> set rows. pairCode x = c \<and> status x = CREATED \<and> t0 < expiresAt x \<longrightarrow> session_id x = i"
    and later: "t0 \<le> t"
    and f: "\<And>x. status (f x) \<noteq> CREATED"
  shows "find (\<lambda>y. pairCode y = c \<and> status y = CREATED \<and> t < expiresAt y)
           (map (\<lambda>x. if session_id x = i then f x else x) rows) = None"
proof -
  have "\<not> (pairCode y = c \<and> status y = CREATED \<and> t < expiresAt y)"
    if "y \<in> set (map (\<lambda>x. if session_id x = i then f x else x) rows)" for y
  proof -
    from that obtain x where x: "x \<in> set rows"
      and y: "y = (if session_id x = i then f x else x)"
      by auto
    show ?thesis
    proof (cases "session_id x = i")
      case True
      with y f show ?thesis by simp
    next
      case False
      with y only x later show ?thesis by auto
    qed
  qed
  then show ?thesis
    by (auto simp: find_None_iff)
qed

lemma pairSession_hides_code:
  assumes found: "s \<in> set (sessions st)"
    and only: "\<forall>x \<in> set (sessions st).
                 pairCode x = c \<and> status x = CREATED \<and> t0 < expiresAt x \<longrightarrow> session_id x = session_id s"
  shows "\<exists>row st'. pairSession cfg clk (session_id s) callerNo callerNm leg st = Inr (row, st') \<and>
           status row = PAIRED \<and> callerNumber row = Some callerNo \<and>
           (\<forall>clk'. t0 \<le> clk' 0 \<longrightarrow> findSessionByCode clk' c st' = None)"
proof -
  from found obtain row where row: "find (\<lambda>x. session_id x = session_id s) (sessions st) = Some row"
    by (cases "find (\<lambda>x. session_id x = session_id s) (sessions st)") (auto simp: find_None_iff)
  then show ?thesis
    by (simp add: pairSession_def Let_def findSessionByCode_def createEvent_def
          find_created_after_update [OF only])
qed

text \<open>
  Claim C2, as the code has it. When the two requests run one after the other, on a clock
  that does not run backwards between the two lookups, and no other unexpired session in
  status created carries the code, exactly one of them pairs: the first one pairs the
  session, and the second one finds the code no longer available. Expired sessions with
  the same code that were never swept do not matter.
\<close>

theorem pairing_in_turn_exclusive:
  assumes found: "findSessionByCode clk1 c st = Some s"
    and only: "\<forall>x \<in> set (sessions st).
                 pairCode x = c \<and> status x = CREATED \<and> clk1 0 < expiresAt x \<longrightarrow> session_id x = session_id s"
    and later: "clk1 0 \<le> clk3 0"
  shows "\<exists>row st'.
           runAttempts cfg c w1 w2 [(True, clk1), (True, clk2), (False, clk3), (False, clk4)]
             (Start, Start, st) = (Paired row, Unavailable, st') \<and>
           status row = PAIRED \<and> callerNumber row = Some (fromNumber w1)"
proof -
  from found have "s \<in> set (sessions st)"
    by (auto simp: findSessionByCode_def find_Some_iff)
  from pairSession_hides_code [OF this only, of cfg clk2 "fromNumber w1" "spokenName w1" "callLeg w1"]
  obtain row st' where p: "pairSession cfg clk2 (session_id s) (fromNumber w1) (spokenName w1) (callLeg w1) st = Inr (row, st')"
    and r: "status row = PAIRED" "callerNumber row = Some (fromNumber w1)"
    and gone: "\<forall>clk'. clk1 0 \<le> clk' 0 \<longrightarrow> findSessionByCode clk' c st' = None"
    by blast
  from gone later have "findSessionByCode clk3 c st' = None"
    by blast
  with found p have
    "runAttempts cfg c w1 w2 [(True, clk1), (True, clk2), (False, clk3), (False, clk4)]
       (Start, Start, st) = (Paired row, Unavailable, st')"
    by (simp add: attemptStep_def)
  with r show ?thesis by blast
qed

theorem pairing_in_turn_exclusive_witness:
  "findSessionByCode (\<lambda>n. 1000) ''4827'' staleStore = Some demoSession \<and>
   (case runAttempts demoConfig ''4827'' alice bob
           [(True, \<lambda>n. 1000), (True, \<lambda>n. 2000), (False, \<lambda>n. 3000), (False, \<lambda>n. 4000)]
           (Start, Start, staleStore) of
      (a1, a2, st') \<Rightarrow> hasPaired a1 \<and> a2 = Unavailable \<and>
         map callerNumber (sessions st') = [None, Some ''+15550101''])"
proof -
  have f: "findSessionByCode (\<lambda>n. 1000) ''4827'' staleStore = Some demoSession"
    by (simp add: findSessionByCode_def staleStore_def staleSession_def demoSession_def)
  have o: "\<forall>x \<in> set (sessions staleStore).
             pairCode x = ''4827'' \<and> status x = CREATED \<and> (\<lambda>n. 1000) 0 < expiresAt x
               \<longrightarrow> session_id x = session_id demoSession"
    by (simp add: staleStore_def staleSession_def)
  have l: "(\<lambda>n. 1000 :: int) 0 \<le> (\<lambda>n. 3000) 0"
    by simp
  from pairing_in_turn_exclusive [OF f o l, of demoConfig alice bob "\<lambda>n. 2000" "\<lambda>n. 4000"]
  obtain row st' where run: "runAttempts demoConfig ''4827'' alice bob
           [(True, \<lambda>n. 1000), (True, \<lambda>n. 2000), (False, \<lambda>n. 3000), (False, \<lambda>n. 4000)]
           (Start, Start, staleStore) = (Paired row, Unavailable, st')"
    by blast
  have "map callerNumber (sessions (snd (snd (runAttempts demoConfig ''4827'' alice bob
           [(True, \<lambda>n. 1000), (True, \<lambda>n. 2000), (False, \<lambda>n. 3000), (False, \<lambda>n. 4000)]
           (Start, Start, staleStore))))) = [None, Some ''+15550101'']"
    by (simp add: attemptStep_def findSessionByCode_def pairSession_def createEvent_def Let_def
          staleStore_def staleSession_def demoSession_def alice_def bob_def)
  with run f show ?thesis
    by (simp add: hasPaired_def)
qed

text \<open>
  When the lookups of both requests run before either update, both requests pair: the
  update of \<open>pairSession\<close> is keyed on the identifier alone, so the second one overwrites
  the caller of the first, and two \<open>paired\<close> events are recorded.
\<close>

theorem pairing_interleaved_counterexample:
  "(case runAttempts demoConfig ''4827'' alice bob
           [(True, \<lambda>n. 1000), (False, \<lambda>n. 2000), (True, \<lambda>n. 3000), (False, \<lambda>n. 4000)]
           (Start, Start, demoStore) of
      (a1, a2, st') \<Rightarrow> hasPaired a1 \<and> hasPaired a2 \<and>
         map callerNumber (sessions st') = [Some ''+15550102''] \<and>
         map eventType (events st') = [''paired'', ''paired''])"
  by (simp add: attemptStep_def findSessionByCode_def pairSession_def createEvent_def Let_def
        demoStore_def demoSession_def alice_def bob_def hasPaired_def)

end
